theory Spec2Isabelle
  imports Complex_Main "HOL-Library.Word" "HOL-Library.Monad_Syntax"
begin

section \<open>Pointers and the ordered map of the window registry\<close>

text \<open>
  Objects of the program (\<open>WindowMac\<close>, \<open>VisageAppView\<close>, \<open>NSWindow\<close>, \<open>NSView\<close>) are
  referred to by address. An address is a natural number; \<open>0\<close> is \<open>nullptr\<close>/\<open>nil\<close>.
  A nullable pointer field of a class is an \<open>option\<close>.
\<close>

type_synonym ptr = nat

definition nullptr :: ptr where
  "nullptr = 0"

text \<open>
  \<open>std::map<void*, WindowMac*>\<close>: an association list kept in ascending key order, one
  entry per key, which is also the order a range-for visits the entries in.
\<close>

type_synonym std_map = "(ptr \<times> ptr) list"

text \<open>\<open>m.find(k)\<close>: the mapped value, or \<open>None\<close> for \<open>m.end()\<close>.\<close>

fun map_find :: "ptr \<Rightarrow> std_map \<Rightarrow> ptr option" where
  "map_find k [] = None"
| "map_find k ((k', v) # m) = (if k' = k then Some v else map_find k m)"

text \<open>\<open>m.count(k)\<close>: 0 or 1.\<close>

definition map_count :: "ptr \<Rightarrow> std_map \<Rightarrow> nat" where
  "map_count k m = (case map_find k m of None \<Rightarrow> 0 | Some _ \<Rightarrow> 1)"

text \<open>\<open>m[k] = v\<close>: \<open>operator[]\<close> finds the entry of \<open>k\<close> or inserts one in key order;
  the assignment then stores \<open>v\<close> in it.\<close>

fun map_assign :: "ptr \<Rightarrow> ptr \<Rightarrow> std_map \<Rightarrow> std_map" where
  "map_assign k v [] = [(k, v)]"
| "map_assign k v ((k', v') # m) =
     (if k' = k then (k, v) # m
      else if k < k' then (k, v) # (k', v') # m
      else (k', v') # map_assign k v m)"

text \<open>\<open>m.erase(k)\<close>.\<close>

fun map_erase :: "ptr \<Rightarrow> std_map \<Rightarrow> std_map" where
  "map_erase k [] = []"
| "map_erase k ((k', v) # m) = (if k' = k then map_erase k m else (k', v) # map_erase k m)"


section \<open>NativeWindowLookup\<close>

text \<open>
  The registry reaches a window only through its pointer. The member functions of
  \<open>WindowMac\<close> it calls (\<open>nativeHandle\<close>, \<open>closeRequested\<close>, \<open>isShowing\<close>) are
  parameters here: functions from the window's address to what the call returns in the
  current program state. The singleton's only data member is the map
  \<open>native_window_lookup_\<close>, so a registry state is a \<open>std_map\<close>.
\<close>

definition addWindow :: "(ptr \<Rightarrow> ptr) \<Rightarrow> ptr \<Rightarrow> std_map \<Rightarrow> std_map" where
  "addWindow nativeHandle window native_window_lookup =
     map_assign (nativeHandle window) window native_window_lookup"

definition removeWindow :: "(ptr \<Rightarrow> ptr) \<Rightarrow> ptr \<Rightarrow> std_map \<Rightarrow> std_map" where
  "removeWindow nativeHandle window native_window_lookup =
     (if map_count (nativeHandle window) native_window_lookup \<noteq> 0
      then map_erase (nativeHandle window) native_window_lookup
      else native_window_lookup)"

text \<open>\<open>anyWindowOpen\<close>: the loop returns at the first window that is showing.\<close>

fun anyWindowOpen :: "(ptr \<Rightarrow> bool) \<Rightarrow> std_map \<Rightarrow> bool" where
  "anyWindowOpen isShowing [] = False"
| "anyWindowOpen isShowing ((h, window) # rest) =
     (if isShowing window then True else anyWindowOpen isShowing rest)"

text \<open>\<open>requestAllToClose\<close>: the loop visits every entry (it does not stop at the first
  refusal) and carries \<open>result\<close>, which starts as \<open>true\<close>.\<close>

fun requestAllToClose_loop :: "(ptr \<Rightarrow> bool) \<Rightarrow> std_map \<Rightarrow> bool \<Rightarrow> bool" where
  "requestAllToClose_loop closeRequested [] result = result"
| "requestAllToClose_loop closeRequested ((h, window) # rest) result =
     requestAllToClose_loop closeRequested rest
       (if \<not> closeRequested window then False else result)"

definition requestAllToClose :: "(ptr \<Rightarrow> bool) \<Rightarrow> std_map \<Rightarrow> bool" where
  "requestAllToClose closeRequested native_window_lookup =
     requestAllToClose_loop closeRequested native_window_lookup True"

text \<open>\<open>findWindow\<close>: \<open>None\<close> is the \<open>nullptr\<close> result.\<close>

definition findWindow :: "ptr \<Rightarrow> std_map \<Rightarrow> ptr option" where
  "findWindow handle native_window_lookup = map_find handle native_window_lookup"

text \<open>\<open>VisageAppDelegate applicationShouldTerminate:\<close>.\<close>

datatype NSApplicationTerminateReply = NSTerminateCancel | NSTerminateNow

definition applicationShouldTerminate ::
    "(ptr \<Rightarrow> bool) \<Rightarrow> std_map \<Rightarrow> NSApplicationTerminateReply" where
  "applicationShouldTerminate closeRequested native_window_lookup =
     (if requestAllToClose closeRequested native_window_lookup then NSTerminateNow
      else NSTerminateCancel)"

text \<open>
  Two concrete \<open>nativeHandle\<close> functions for the worked examples below: under
  \<open>own_view_handle\<close> every window has a view of its own (the handle of the window at
  address \<open>w\<close> is \<open>w + 100\<close>); under \<open>shared_view_handle\<close> all windows report
  the handle \<open>7\<close>. \<open>ready_below_3\<close> is a \<open>closeRequested\<close> that windows 1 and 2
  answer with \<open>true\<close> and every other window with \<open>false\<close>.
\<close>

definition own_view_handle :: "ptr \<Rightarrow> ptr" where
  "own_view_handle w = w + 100"

definition shared_view_handle :: "ptr \<Rightarrow> ptr" where
  "shared_view_handle w = 7"

definition ready_below_3 :: "ptr \<Rightarrow> bool" where
  "ready_below_3 w = (w < 3)"

text \<open>A history of registrations and removals, applied from left to right.\<close>

datatype registry_call = AddWindow ptr | RemoveWindow ptr

fun call_window :: "registry_call \<Rightarrow> ptr" where
  "call_window (AddWindow w) = w"
| "call_window (RemoveWindow w) = w"

fun perform_call :: "(ptr \<Rightarrow> ptr) \<Rightarrow> std_map \<Rightarrow> registry_call \<Rightarrow> std_map" where
  "perform_call nativeHandle m (AddWindow w) = addWindow nativeHandle w m"
| "perform_call nativeHandle m (RemoveWindow w) = removeWindow nativeHandle w m"

definition registry_calls :: "(ptr \<Rightarrow> ptr) \<Rightarrow> registry_call list \<Rightarrow> std_map \<Rightarrow> std_map" where
  "registry_calls nativeHandle calls m = foldl (perform_call nativeHandle) m calls"


section \<open>Diagnostics: \<open>visageDebugEnabled\<close>, \<open>visageDebugLog\<close>, \<open>shouldLogEvery\<close>\<close>

text \<open>
  Both source files carry the same anonymous-namespace helpers. \<open>debug_enabled\<close> is the
  value \<open>visageDebugEnabled()\<close> computes once from the environment variable
  \<open>NUPG_VISAGE_DEBUG\<close>. \<open>visage::time::microseconds()\<close> is an input of the program:
  \<open>clock\<close> gives its successive results and \<open>clock_reads\<close> counts the readings taken so
  far. \<open>stderr_lines\<close> holds the tag and the format string of every line written to the
  standard error stream. \<open>statics\<close> holds the function-local \<open>static uint64_t\<close> time stamps,
  by the name of the function and of the variable; all of them start as 0.
\<close>

record diagnostics =
  debug_enabled :: bool
  clock :: "nat \<Rightarrow> 64 word"
  clock_reads :: nat
  stderr_lines :: "(string \<times> string) list"
  statics :: "string \<Rightarrow> 64 word"

definition microseconds :: "diagnostics \<Rightarrow> 64 word \<times> diagnostics" where
  "microseconds d = (clock d (clock_reads d), d\<lparr>clock_reads := Suc (clock_reads d)\<rparr>)"

definition visageDebugLog :: "string \<Rightarrow> string \<Rightarrow> diagnostics \<Rightarrow> diagnostics" where
  "visageDebugLog tag format d =
     (if \<not> debug_enabled d then d
      else d\<lparr>stderr_lines := stderr_lines d @ [(tag, format)]\<rparr>)"

text \<open>\<open>shouldLogEvery(last_us, interval_us)\<close>: the reference parameter is passed by value
  and its new value returned; the subtraction is that of \<open>uint64_t\<close>.\<close>

definition shouldLogEvery ::
    "64 word \<Rightarrow> 64 word \<Rightarrow> diagnostics \<Rightarrow> (bool \<times> 64 word) \<times> diagnostics" where
  "shouldLogEvery last_us interval_us d =
     (case microseconds d of (now, d1) \<Rightarrow>
        if now - last_us \<ge> interval_us then ((True, now), d1) else ((False, last_us), d1))"

text \<open>
  The block that recurs in the sources,
  \<^verbatim>\<open>if (visageDebugEnabled()) { static uint64_t last = 0;
       if (shouldLogEvery(last, interval)) visageDebugLog(tag, format, ...); }\<close>
  (in \<open>ApplicationEditor::drawWindow\<close> with the body of \<open>shouldLogEvery\<close> written out in
  place), for the static variable called \<open>name\<close>.
\<close>

definition log_every :: "string \<Rightarrow> 64 word \<Rightarrow> string \<Rightarrow> string \<Rightarrow> diagnostics \<Rightarrow> diagnostics" where
  "log_every name interval_us tag format d =
     (if debug_enabled d then
        (case shouldLogEvery (statics d name) interval_us d of ((due, last_us), d1) \<Rightarrow>
           (let d2 = d1\<lparr>statics := (statics d1)(name := last_us)\<rparr>
            in if due then visageDebugLog tag format d2 else d2))
      else d)"


section \<open>ApplicationEditor\<close>

text \<open>
  The canvas is an external collaborator; what the editor does to it is kept as the list
  of frames drawn to their regions (\<open>Frame::drawToRegion\<close>), in order, and the number of
  \<open>Canvas::submit\<close> calls.
\<close>

record Canvas =
  drawn_regions :: "ptr list"
  submissions :: nat

text \<open>
  The data members \<open>drawWindow\<close> and \<open>drawStaleChildren\<close> read and write (the trailing
  underscore of a member name is dropped), and of the \<open>Frame\<close> base class the values
  \<open>width()\<close>, \<open>height()\<close> and \<open>initialized()\<close> return (\<open>frame_width\<close>,
  \<open>frame_height\<close>, \<open>initialized\<close>). \<open>editor_window\<close> is the member \<open>window_\<close>, the
  \<open>Window*\<close> the editor is attached to, \<open>None\<close> for \<open>nullptr\<close>.
\<close>

record ApplicationEditor =
  editor_window :: "ptr option"
  frame_width :: real
  frame_height :: real
  initialized :: bool
  stale_children :: "ptr list"
  drawing_children :: "ptr list"
  canvas :: Canvas
  editor_diagnostics :: diagnostics

text \<open>
  Member functions of other classes that the editor calls and whose code is not in these
  files are parameters: \<open>isVisible\<close> of the attached window; \<open>Frame::init\<close>
  (\<open>frame_init\<close>); \<open>Frame::name\<close> (\<open>frame_name\<close>) and \<open>Frame::isDrawing\<close> of a child; and for \<open>Frame::drawToRegion\<close> of a
  child the frames it hands to the \<open>request_redraw\<close> callback while it draws.
\<close>

record Frame_methods =
  isVisible :: "ptr \<Rightarrow> bool"
  frame_init :: "ApplicationEditor \<Rightarrow> ApplicationEditor"
  frame_name :: "ptr \<Rightarrow> string"
  isDrawing :: "ptr \<Rightarrow> bool"
  redraw_requests :: "ptr \<Rightarrow> ptr list"

text \<open>The \<open>request_redraw\<close> callback installed by the constructor.\<close>

definition request_redraw :: "Frame_methods \<Rightarrow> ApplicationEditor \<Rightarrow> ptr \<Rightarrow> ApplicationEditor" where
  "request_redraw F e frame =
     (let d = editor_diagnostics e;
          d' = (if debug_enabled d \<and> frame \<noteq> nullptr \<and> frame_name F frame = ''PhysicsGraph''
                then log_every ''request_redraw.last_redraw_log_us'' 1000000
                       ''redraw'' ''frame=%s stale=%zu'' d
                else d);
          e1 = e\<lparr>editor_diagnostics := d'\<rparr>
      in if frame \<notin> set (stale_children e1)
         then e1\<lparr>stale_children := stale_children e1 @ [frame]\<rparr>
         else e1)"

text \<open>\<open>child->drawToRegion(*canvas_)\<close>: the canvas records the child, and the redraws the
  child asks for go through \<open>request_redraw\<close>.\<close>

definition drawToRegion :: "Frame_methods \<Rightarrow> ptr \<Rightarrow> ApplicationEditor \<Rightarrow> ApplicationEditor" where
  "drawToRegion F child e =
     foldl (request_redraw F)
       (e\<lparr>canvas := (canvas e)\<lparr>drawn_regions := drawn_regions (canvas e) @ [child]\<rparr>\<rparr>)
       (redraw_requests F child)"

text \<open>The first loop of \<open>drawStaleChildren\<close>, over the elements of \<open>drawing_children_\<close>.\<close>

fun draw_drawing_children :: "Frame_methods \<Rightarrow> ptr list \<Rightarrow> ApplicationEditor \<Rightarrow> ApplicationEditor" where
  "draw_drawing_children F [] e = e"
| "draw_drawing_children F (child # rest) e =
     draw_drawing_children F rest (if isDrawing F child then drawToRegion F child e else e)"

definition erase_at :: "nat \<Rightarrow> 'a list \<Rightarrow> 'a list" where
  "erase_at i xs = take i xs @ drop (Suc i) xs"

text \<open>
  The second loop, over \<open>stale_children_\<close> with the iterator \<open>it\<close> as an index. When the
  child drawn here makes \<open>request_redraw\<close> append to \<open>stale_children_\<close>, the
  \<open>push_back\<close> happens under the live iterator \<open>it\<close>. The vector reallocates when its
  capacity is used up, which invalidates \<open>it\<close>, and the \<open>erase(it)\<close> that follows is
  undefined behaviour; the capacity is not part of the model, so the model gives \<open>None\<close>
  whenever the list has grown. Otherwise the drawn child is erased at \<open>it\<close>.
\<close>

partial_function (option) draw_new_stale_children ::
    "Frame_methods \<Rightarrow> nat \<Rightarrow> ApplicationEditor \<Rightarrow> ApplicationEditor option" where
  "draw_new_stale_children F it e =
     (if it < length (stale_children e) then
        (if stale_children e ! it \<notin> set (drawing_children e) then
           (if length (stale_children (drawToRegion F (stale_children e ! it) e))
                 \<noteq> length (stale_children e)
            then None
            else draw_new_stale_children F it
                   ((drawToRegion F (stale_children e ! it) e)
                      \<lparr>stale_children :=
                         erase_at it
                           (stale_children (drawToRegion F (stale_children e ! it) e))\<rparr>))
         else draw_new_stale_children F (it + 1) e)
      else Some e)"

declare draw_new_stale_children.simps [code]

definition drawStaleChildren :: "Frame_methods \<Rightarrow> ApplicationEditor \<Rightarrow> ApplicationEditor option" where
  "drawStaleChildren F e =
     (let e1 = e\<lparr>drawing_children := []\<rparr>;
          e2 = e1\<lparr>stale_children := drawing_children e1, drawing_children := stale_children e1\<rparr>;
          e3 = draw_drawing_children F (drawing_children e2) e2
      in map_option (\<lambda>e4. e4\<lparr>drawing_children := []\<rparr>) (draw_new_stale_children F 0 e3))"

definition submit :: "Canvas \<Rightarrow> Canvas" where
  "submit c = c\<lparr>submissions := Suc (submissions c)\<rparr>"

text \<open>\<open>ApplicationEditor::drawWindow\<close>. \<open>None\<close>: the behaviour of the call is
  undefined (see the second loop of \<open>drawStaleChildren\<close>).\<close>

definition ApplicationEditor_drawWindow :: "Frame_methods \<Rightarrow> ApplicationEditor \<Rightarrow> ApplicationEditor option" where
  "ApplicationEditor_drawWindow F e =
     (if (case editor_window e of None \<Rightarrow> False | Some w \<Rightarrow> \<not> isVisible F w) then
        Some (e\<lparr>editor_diagnostics :=
                  log_every ''drawWindow.last_hidden_log_us'' 1000000
                    ''drawWindow'' ''skipped (window hidden)'' (editor_diagnostics e)\<rparr>)
      else if frame_width e = 0 \<or> frame_height e = 0 then
        Some (e\<lparr>editor_diagnostics :=
                  log_every ''drawWindow.last_size_log_us'' 1000000
                    ''drawWindow'' ''skipped (size=0x0)'' (editor_diagnostics e)\<rparr>)
      else
        (let e1 = e\<lparr>editor_diagnostics :=
                      log_every ''drawWindow.last_log_us'' 1000000 ''drawWindow''
                        ''visible=%d size=%.1fx%.1f initialized=%d stale=%zu''
                        (editor_diagnostics e)\<rparr>;
             e2 = (if \<not> initialized e1 then frame_init F e1 else e1)
         in if stale_children e2 \<noteq> []
            then map_option (\<lambda>e3. e3\<lparr>canvas := submit (canvas e3)\<rparr>) (drawStaleChildren F e2)
            else Some e2))"


section \<open>Geometry\<close>

text \<open>
  \<open>CGFloat\<close> (\<open>double\<close>) and \<open>float\<close> values are modelled as real numbers: products,
  differences and quotients are exact, and the narrowing from \<open>double\<close> to \<open>float\<close> is
  the identity. A size is (width, height), a point is (x, y).
\<close>

type_synonym CGSize = "real \<times> real"
type_synonym CGPoint = "real \<times> real"

record NSRect =
  origin :: CGPoint
  rect_size :: CGSize

definition NSMakeRect :: "real \<Rightarrow> real \<Rightarrow> real \<Rightarrow> real \<Rightarrow> NSRect" where
  "NSMakeRect x y w h = \<lparr>origin = (x, y), rect_size = (w, h)\<rparr>"

definition NSZeroRect :: NSRect where
  "NSZeroRect = NSMakeRect 0 0 0 0"

text \<open>Modelled from the spec: \<open>visage::Point\<close> and its \<open>operator*\<close> with a scalar live in
  \<open>visage_utils\<close>, which is not among the files; section 4.3 has
  \<open>point = (native_view_point with Y flipped) \<times> dpiScale\<close>, both coordinates multiplied.\<close>

definition scale_point :: "CGPoint \<Rightarrow> real \<Rightarrow> CGPoint" where
  "scale_point p k = (fst p * k, snd p * k)"

text \<open>\<open>std::round\<close>: halves are rounded away from zero.\<close>

definition std_round :: "real \<Rightarrow> int" where
  "std_round x = (if 0 \<le> x then \<lfloor>x + 1 / 2\<rfloor> else \<lceil>x - 1 / 2\<rceil>)"

text \<open>The conversion of an integral \<open>double\<close> to \<open>int\<close> (32 bits): the value when it
  is in the range of \<open>int\<close>; outside the range the conversion is undefined behaviour,
  \<open>None\<close>.\<close>

definition fits_int :: "int \<Rightarrow> bool" where
  "fits_int k \<longleftrightarrow> - (2 ^ 31) \<le> k \<and> k < 2 ^ 31"

definition double_to_int :: "int \<Rightarrow> int option" where
  "double_to_int k = (if fits_int k then Some k else None)"



section \<open>The objects of the macOS backend\<close>

datatype Decoration = Native | Client | Popup

datatype NSWindowStyleMask =
    NSWindowStyleMaskTitled | NSWindowStyleMaskResizable | NSWindowStyleMaskMiniaturizable
  | NSWindowStyleMaskClosable | NSWindowStyleMaskFullSizeContentView

datatype NSWindowLevel = NSNormalWindowLevel | NSFloatingWindowLevel | NSStatusWindowLevel

text \<open>
  An \<open>NSWindow\<close> of AppKit, with the properties the code sets or reads. \<open>styleMask\<close> is
  the list of the flags or-ed together (\<open>NSWindowStyleMaskBorderless\<close> is the empty list),
  \<open>onScreen\<close> is what \<open>[window isVisible]\<close> returns, \<open>occlusionVisible\<close> is the bit
  \<open>NSWindowOcclusionStateVisible\<close> of \<open>occlusionState\<close>, and \<open>contentRect\<close> also serves as
  \<open>contentLayoutRect\<close>.
\<close>

record NSWindow =
  contentRect :: NSRect
  styleMask :: "NSWindowStyleMask list"
  level :: NSWindowLevel
  titlebarAppearsTransparent :: bool
  backingScaleFactor :: real
  contentView :: "ptr option"
  firstResponder :: "ptr option"
  acceptsMouseMovedEvents :: bool
  ignoresMouseEvents :: bool
  onScreen :: bool
  keyWindow :: bool
  occlusionVisible :: bool

text \<open>The \<open>CAMetalLayer\<close> behind a view: the two properties
  \<open>updateMetalLayerDrawableSize\<close> maintains and two of the settings of
  \<open>makeBackingLayer\<close>.\<close>

record CAMetalLayer =
  contentsScale :: real
  drawableSize :: CGSize
  maximumDrawableCount :: nat
  presentsWithTransaction :: bool

text \<open>
  \<open>VisageAppView\<close>: the properties \<open>visage_window\<close> and \<open>allow_quit\<close>, the instance
  variables of the class extension, and of the \<open>NSView\<close> it extends the frame size, the
  backing layer, the window and the superview it is installed in. The code never gives the
  view a bounds transform, so \<open>self.bounds.size\<close> is the frame size.
\<close>

record VisageAppView =
  visage_window :: "ptr option"
  allow_quit :: bool
  frame_size :: CGSize
  layer :: "CAMetalLayer option"
  view_window :: "ptr option"
  superview :: "ptr option"
  displayLink_running :: bool
  last_display_log_us :: "64 word"
  last_draw_log_us :: "64 word"
  last_render_us :: "64 word"
  display_count :: "64 word"
  draw_count :: "64 word"

definition bounds_size :: "VisageAppView \<Rightarrow> CGSize" where
  "bounds_size v = frame_size v"

text \<open>Modelled from the spec: class \<open>Window\<close> is declared in \<open>windowing.h\<close>, which is
  not among the files. Of its state the model keeps the value \<open>dpiScale()\<close> returns and
  \<open>setDpiScale\<close> stores, and the visibility flag \<open>isVisible()\<close> returns and \<open>setVisible\<close>
  stores (section 4.4: "visibility = occlusion bit set; propagate to owning window").\<close>

record Window =
  dpi_scale :: real
  visible :: bool

text \<open>\<open>WindowMac\<close>: the data members the code in the file uses, trailing underscore
  dropped.\<close>

record WindowMac = Window +
  decoration :: Decoration
  parent_view :: "ptr option"
  window_handle :: "ptr option"
  view :: "ptr option"
  last_content_rect :: NSRect

text \<open>Modelled from the spec: \<open>WindowMac::isEmbedded\<close> and \<open>isPopup\<close> are declared in
  the absent \<open>windowing_macos.h\<close>. The parent-view reference is "non-null only in embedded
  mode" (section 3), and a popup is the window of decoration kind \<open>Popup\<close>.\<close>

definition isEmbedded :: "WindowMac \<Rightarrow> bool" where
  "isEmbedded w = (parent_view w \<noteq> None)"

definition isPopup :: "WindowMac \<Rightarrow> bool" where
  "isPopup w = (decoration w = Popup)"

text \<open>
  Calls into the framework whose implementation is elsewhere; the model records them in
  the order they are made: \<open>drawCallback(time)\<close>, \<open>notifyShow()\<close>, \<open>notifyHide()\<close> and
  \<open>handleResized(width, height)\<close> of the window at the given address.
\<close>

datatype framework_call =
    DrawCallback ptr real
  | NotifyShow ptr
  | NotifyHide ptr
  | HandleResized ptr int int

text \<open>
  The state of the process. The three heaps map an address to the live object there;
  \<open>host_views\<close> are the views of an embedding host, each with the window it is in, if any.
  \<open>observers\<close> are the registrations with the notification centre for
  \<open>NSWindowDidChangeOcclusionStateNotification\<close>, as (observing view, observed window).
  \<open>next_address\<close> is where the next object is allocated, \<open>screen_scale\<close> is the backing
  scale factor AppKit gives a window created now, and \<open>app_stops\<close> counts \<open>[NSApp stop:]\<close>.
\<close>

record world =
  windows :: "ptr \<Rightarrow> WindowMac option"
  views :: "ptr \<Rightarrow> VisageAppView option"
  ns_windows :: "ptr \<Rightarrow> NSWindow option"
  host_views :: "ptr \<Rightarrow> ptr option option"
  native_window_lookup :: std_map
  observers :: "(ptr \<times> ptr) list"
  running_event_loop :: bool
  app_stops :: nat
  next_address :: ptr
  screen_scale :: real
  framework_calls :: "framework_call list"
  diag :: diagnostics

text \<open>
  Every operation on the world returns \<open>None\<close> when the code would go through a null or
  dangling pointer, convert a number out of the range of its target type or divide by
  zero (undefined behaviour in C++), and the new world otherwise. A message to \<open>nil\<close> is not such a fault: Objective-C defines it to do
  nothing and return zero.
\<close>

definition modify_window :: "ptr \<Rightarrow> (WindowMac \<Rightarrow> WindowMac) \<Rightarrow> world \<Rightarrow> world option" where
  "modify_window p f s =
     (case windows s p of None \<Rightarrow> None
      | Some w \<Rightarrow> Some (s\<lparr>windows := (windows s)(p \<mapsto> f w)\<rparr>))"

definition modify_view :: "ptr \<Rightarrow> (VisageAppView \<Rightarrow> VisageAppView) \<Rightarrow> world \<Rightarrow> world option" where
  "modify_view p f s =
     (case views s p of None \<Rightarrow> None
      | Some v \<Rightarrow> Some (s\<lparr>views := (views s)(p \<mapsto> f v)\<rparr>))"

definition modify_ns_window :: "ptr \<Rightarrow> (NSWindow \<Rightarrow> NSWindow) \<Rightarrow> world \<Rightarrow> world option" where
  "modify_ns_window p f s =
     (case ns_windows s p of None \<Rightarrow> None
      | Some n \<Rightarrow> Some (s\<lparr>ns_windows := (ns_windows s)(p \<mapsto> f n)\<rparr>))"

definition allocate :: "world \<Rightarrow> ptr \<times> world" where
  "allocate s = (next_address s, s\<lparr>next_address := Suc (next_address s)\<rparr>)"

definition record_call :: "framework_call \<Rightarrow> world \<Rightarrow> world" where
  "record_call c s = s\<lparr>framework_calls := framework_calls s @ [c]\<rparr>"

text \<open>Modelled from the spec: \<open>Window::setDpiScale\<close>, \<open>Window::setVisible\<close> (see
  \<open>Window\<close> above).\<close>

definition setDpiScale :: "ptr \<Rightarrow> real \<Rightarrow> world \<Rightarrow> world option" where
  "setDpiScale this scale s = modify_window this (\<lambda>w. w\<lparr>dpi_scale := scale\<rparr>) s"

definition setVisible :: "ptr \<Rightarrow> bool \<Rightarrow> world \<Rightarrow> world option" where
  "setVisible this b s = modify_window this (\<lambda>w. w\<lparr>visible := b\<rparr>) s"

text \<open>Modelled from the spec: \<open>WindowMac::nativeHandle\<close> is declared in the absent
  \<open>windowing_macos.h\<close>; the native handle is an "opaque platform pointer" (section 3), and
  the delegate callbacks look a window up by its content view, so it is \<open>view_\<close>.\<close>

definition WindowMac_nativeHandle :: "world \<Rightarrow> ptr \<Rightarrow> ptr" where
  "WindowMac_nativeHandle s p =
     (case windows s p of None \<Rightarrow> nullptr
      | Some w \<Rightarrow> (case view w of None \<Rightarrow> nullptr | Some v \<Rightarrow> v))"

text \<open>\<open>WindowMac::isShowing\<close>, through a window pointer.\<close>

definition WindowMac_isShowing :: "world \<Rightarrow> ptr \<Rightarrow> bool" where
  "WindowMac_isShowing s p =
     (case windows s p of None \<Rightarrow> False
      | Some w \<Rightarrow>
          (case window_handle w of None \<Rightarrow> False
           | Some nw \<Rightarrow> (case ns_windows s nw of None \<Rightarrow> False | Some n \<Rightarrow> onScreen n)))"


section \<open>VisageAppView: the render surface\<close>

text \<open>
  \<open>makeBackingLayer\<close>. A layer fresh from \<open>[CAMetalLayer layer]\<close> has Core Animation's
  defaults, contents scale 1 and an empty drawable. The \<open>@available\<close> guards are taken to
  hold.
\<close>

definition makeBackingLayer :: "diagnostics \<Rightarrow> CAMetalLayer \<times> diagnostics" where
  "makeBackingLayer d =
     (\<lparr>contentsScale = 1, drawableSize = (0, 0), maximumDrawableCount = 2,
       presentsWithTransaction = False\<rparr>,
      visageDebugLog ''layer'' ''created device=%p pixelFormat=%d framebufferOnly=%d'' d)"

definition updateMetalLayerDrawableSize :: "ptr \<Rightarrow> world \<Rightarrow> world option" where
  "updateMetalLayerDrawableSize self s = do {
     v \<leftarrow> views s self;
     (case layer v of
        None \<Rightarrow> Some s
      | Some metalLayer \<Rightarrow> do {
          scale \<leftarrow> (case view_window v of
                      Some nw \<Rightarrow> map_option backingScaleFactor (ns_windows s nw)
                    | None \<Rightarrow>
                        Some (if contentsScale metalLayer > 0 then contentsScale metalLayer
                              else 1));
          s1 \<leftarrow> modify_view self
                 (\<lambda>v. v\<lparr>layer := Some (metalLayer
                        \<lparr>contentsScale := scale,
                         drawableSize := (fst (bounds_size v) * scale,
                                          snd (bounds_size v) * scale)\<rparr>)\<rparr>) s;
          Some (s1\<lparr>diag := log_every ''updateMetalLayerDrawableSize.last_resize_log_us''
                               1000000 ''drawable''
                               ''scale=%.2f bounds=%.1fx%.1f drawable=%.1fx%.1f'' (diag s1)\<rparr>)
        })
   }"

text \<open>
  \<open>initWithFrame:inWindow:\<close> allocates the view. \<open>[self setWantsLayer:YES]\<close> makes AppKit
  create the backing layer with \<open>makeBackingLayer\<close>. The display link is started.
\<close>

definition initWithFrame :: "NSRect \<Rightarrow> ptr option \<Rightarrow> world \<Rightarrow> (ptr \<times> world) option" where
  "initWithFrame frame_rect window s =
     (case allocate s of (self, s0) \<Rightarrow>
      (case makeBackingLayer (diag s0) of (metalLayer, d1) \<Rightarrow> do {
         let v = \<lparr>visage_window = window, allow_quit = False,
                  frame_size = rect_size frame_rect, layer = Some metalLayer,
                  view_window = None, superview = None, displayLink_running = False,
                  last_display_log_us = 0, last_draw_log_us = 0, last_render_us = 0,
                  display_count = 0, draw_count = 0\<rparr>;
         let s1 = s0\<lparr>views := (views s0)(self \<mapsto> v), diag := d1\<rparr>;
         s2 \<leftarrow> updateMetalLayerDrawableSize self s1;
         s3 \<leftarrow> modify_view self (\<lambda>v. v\<lparr>displayLink_running := True\<rparr>) s2;
         Some (self, s3\<lparr>diag := visageDebugLog ''view'' ''init frame=%.1fx%.1f'' (diag s3)\<rparr>)
       }))"

text \<open>\<open>setFrameSize:\<close>; \<open>[super setFrameSize:]\<close> stores the new size.\<close>

definition setFrameSize :: "ptr \<Rightarrow> CGSize \<Rightarrow> world \<Rightarrow> world option" where
  "setFrameSize self newSize s = do {
     s1 \<leftarrow> modify_view self (\<lambda>v. v\<lparr>frame_size := newSize\<rparr>) s;
     updateMetalLayerDrawableSize self s1
   }"

text \<open>\<open>drawWindow\<close> of the view. The time handed to \<open>drawCallback\<close> is
  \<open>microseconds() / 1000000.0\<close>.\<close>

definition VisageAppView_drawWindow :: "ptr \<Rightarrow> world \<Rightarrow> world option" where
  "VisageAppView_drawWindow self s = do {
     v \<leftarrow> views s self;
     (case visage_window v of
        Some w \<Rightarrow> do {
          _ \<leftarrow> windows s w;
          (case microseconds (diag s) of (now, d1) \<Rightarrow>
             Some (record_call (DrawCallback w (real (unat now) / 1000000)) (s\<lparr>diag := d1\<rparr>)))
        }
      | None \<Rightarrow>
          Some (s\<lparr>diag := log_every ''drawWindow.last_missing_log_us'' 1000000
                               ''drawWindow'' ''missing visage_window'' (diag s)\<rparr>))
   }"

text \<open>\<open>displayLayer:\<close>. In \<open>duration_us > 12000 || shouldLogEvery(...)\<close> the right
  operand is evaluated only when the left one is false.\<close>

definition displayLayer :: "ptr \<Rightarrow> world \<Rightarrow> world option" where
  "displayLayer self s = do {
     s1 \<leftarrow> modify_view self (\<lambda>v. v\<lparr>draw_count := draw_count v + 1\<rparr>) s;
     (case microseconds (diag s1) of (start_us, d1) \<Rightarrow> do {
        s2 \<leftarrow> VisageAppView_drawWindow self (s1\<lparr>diag := d1\<rparr>);
        (case microseconds (diag s2) of (end_us, d2) \<Rightarrow> do {
           s3 \<leftarrow> modify_view self (\<lambda>v. v\<lparr>last_render_us := end_us\<rparr>) (s2\<lparr>diag := d2\<rparr>);
           v \<leftarrow> views s3 self;
           (if \<not> debug_enabled (diag s3) then Some s3
            else if end_us - start_us > 12000 then
              Some (s3\<lparr>diag := visageDebugLog ''displayLayer''
                ''frames=%llu draw_us=%llu bounds=%.1fx%.1f drawable=%.1fx%.1f stale_window=%p''
                (diag s3)\<rparr>)
            else
              (case shouldLogEvery (last_draw_log_us v) 1000000 (diag s3) of
                 ((due, last_us), d3) \<Rightarrow> do {
                   s4 \<leftarrow> modify_view self (\<lambda>v. v\<lparr>last_draw_log_us := last_us\<rparr>)
                          (s3\<lparr>diag := d3\<rparr>);
                   Some (if due then
                      s4\<lparr>diag := visageDebugLog ''displayLayer''
                ''frames=%llu draw_us=%llu bounds=%.1fx%.1f drawable=%.1fx%.1f stale_window=%p''
                        (diag s4)\<rparr>
                    else s4)
                 }))
         })
      })
   }"


section \<open>VisageAppView: pointer positions\<close>

text \<open>
  \<open>eventPosition:\<close>. \<open>view_location\<close> is the point \<open>convertPoint:fromView:\<close> returns, the
  location of the event in the view's own coordinates. The position is computed through
  \<open>self.visage_window\<close> without a null check.
\<close>

definition eventPosition :: "ptr \<Rightarrow> CGPoint \<Rightarrow> world \<Rightarrow> (CGPoint \<times> world) option" where
  "eventPosition self view_location s = do {
     v \<leftarrow> views s self;
     wp \<leftarrow> visage_window v;
     w \<leftarrow> windows s wp;
     let view_height = snd (frame_size v);
     let result = scale_point (fst view_location, view_height - snd view_location) (dpi_scale w);
     Some (result,
           s\<lparr>diag := log_every ''eventPosition.last_coord_log_us'' 2000000 ''eventPos''
                         ''winLoc=%.1f,%.1f viewLoc=%.1f,%.1f viewH=%.1f scale=%.2f result=%.1f,%.1f frameInWin=%.1f,%.1f,%.1fx%.1f''
                         (diag s)\<rparr>)
   }"

text \<open>\<open>dragPosition:\<close>, with \<open>drag_point\<close> the dragging location in the view's
  coordinates.\<close>

definition dragPosition :: "ptr \<Rightarrow> CGPoint \<Rightarrow> world \<Rightarrow> CGPoint option" where
  "dragPosition self drag_point s = do {
     v \<leftarrow> views s self;
     wp \<leftarrow> visage_window v;
     w \<leftarrow> windows s wp;
     let view_height = snd (frame_size v);
     Some (scale_point (fst drag_point, view_height - snd drag_point) (dpi_scale w))
   }"


section \<open>WindowMac\<close>

text \<open>The registry calls of a window on itself.\<close>

definition register_window :: "ptr \<Rightarrow> world \<Rightarrow> world" where
  "register_window this s =
     s\<lparr>native_window_lookup := addWindow (WindowMac_nativeHandle s) this (native_window_lookup s)\<rparr>"

definition unregister_window :: "ptr \<Rightarrow> world \<Rightarrow> world" where
  "unregister_window this s =
     s\<lparr>native_window_lookup :=
          removeWindow (WindowMac_nativeHandle s) this (native_window_lookup s)\<rparr>"

text \<open>\<open>hide\<close>: \<open>orderOut:\<close> takes the window off the screen.\<close>

definition hide :: "ptr \<Rightarrow> world \<Rightarrow> world option" where
  "hide this s = do {
     w \<leftarrow> windows s this;
     (case window_handle w of
        Some nw \<Rightarrow>
          if parent_view w = None then do {
            s1 \<leftarrow> modify_ns_window nw (\<lambda>n. n\<lparr>onScreen := False, keyWindow := False\<rparr>) s;
            Some (record_call (NotifyHide this) s1)
          } else Some s
      | None \<Rightarrow> Some s)
   }"

definition resetBackingScale :: "ptr \<Rightarrow> world \<Rightarrow> world option" where
  "resetBackingScale this s = do {
     w \<leftarrow> windows s this;
     (case window_handle w of
        Some nw \<Rightarrow> do { n \<leftarrow> ns_windows s nw; setDpiScale this (backingScaleFactor n) s }
      | None \<Rightarrow> Some s)
   }"

text \<open>\<open>setParentWindow\<close>; \<open>[NSApp activateIgnoringOtherApps:]\<close> has no effect on the
  state modelled.\<close>

definition setParentWindow :: "ptr \<Rightarrow> ptr \<Rightarrow> world \<Rightarrow> world option" where
  "setParentWindow this window s = do {
     w \<leftarrow> windows s this;
     if parent_view w = None then Some s
     else do {
       s1 \<leftarrow> modify_window this (\<lambda>w. w\<lparr>window_handle := Some window\<rparr>) s;
       s2 \<leftarrow> modify_ns_window window (\<lambda>n. n\<lparr>firstResponder := view w\<rparr>) s1;
       resetBackingScale this s2
     }
   }"

text \<open>\<open>closeWindow\<close>. \<open>window_handle_.contentLayoutRect\<close> on a nil handle is the zero
  rectangle.\<close>

definition closeWindow :: "ptr \<Rightarrow> world \<Rightarrow> world option" where
  "closeWindow this s = do {
     w \<leftarrow> windows s this;
     rect \<leftarrow> (case window_handle w of
                None \<Rightarrow> Some NSZeroRect
              | Some nw \<Rightarrow> map_option contentRect (ns_windows s nw));
     s1 \<leftarrow> modify_window this (\<lambda>w. w\<lparr>last_content_rect := rect\<rparr>) s;
     s2 \<leftarrow> hide this (unregister_window this s1);
     s3 \<leftarrow> modify_window this (\<lambda>w. w\<lparr>window_handle := None\<rparr>) s2;
     Some (if running_event_loop s3
              \<and> \<not> anyWindowOpen (WindowMac_isShowing s3) (native_window_lookup s3)
           then s3\<lparr>app_stops := Suc (app_stops s3)\<rparr> else s3)
   }"


section \<open>VisageAppView: moving between windows, occlusion\<close>

text \<open>\<open>viewWillMoveToWindow:\<close>, with \<open>new_window = None\<close> for \<open>nil\<close>.\<close>

definition viewWillMoveToWindow :: "ptr \<Rightarrow> ptr option \<Rightarrow> world \<Rightarrow> world option" where
  "viewWillMoveToWindow self new_window s = do {
     v \<leftarrow> views s self;
     (case new_window of
        Some nw \<Rightarrow> do {
          s1 \<leftarrow> modify_ns_window nw
                 (\<lambda>n. n\<lparr>acceptsMouseMovedEvents := True, ignoresMouseEvents := False,
                        firstResponder := Some self\<rparr>) s;
          s2 \<leftarrow> (case visage_window v of
                    Some wp \<Rightarrow> setParentWindow wp nw s1
                  | None \<Rightarrow> Some s1);
          embedded \<leftarrow> (case visage_window v of
                          Some wp \<Rightarrow> map_option isEmbedded (windows s2 wp)
                        | None \<Rightarrow> Some False);
          s3 \<leftarrow> (if \<not> embedded then Some (s2\<lparr>observers := observers s2 @ [(self, nw)]\<rparr>)
                 else (case visage_window v of
                         Some wp \<Rightarrow> setVisible wp True s2
                       | None \<Rightarrow> Some s2));
          Some (s3\<lparr>diag := visageDebugLog ''window'' ''attached window=%p embedded=%d''
                               (diag s3)\<rparr>)
        }
      | None \<Rightarrow>
          (case visage_window v of
             Some wp \<Rightarrow> closeWindow wp s
           | None \<Rightarrow> Some s))
   }"

text \<open>\<open>windowOcclusionChanged:\<close>; \<open>window\<close> is \<open>notification.object\<close>.\<close>

definition windowOcclusionChanged :: "ptr \<Rightarrow> ptr \<Rightarrow> world \<Rightarrow> world option" where
  "windowOcclusionChanged self window s = do {
     v \<leftarrow> views s self;
     n \<leftarrow> ns_windows s window;
     s1 \<leftarrow> (case visage_window v of
               Some wp \<Rightarrow> setVisible wp (occlusionVisible n) s
             | None \<Rightarrow> Some s);
     Some (s1\<lparr>diag := visageDebugLog ''occlusion''
                          ''visible=%d occlusion=0x%lx windowVisible=%d miniaturized=%d''
                          (diag s1)\<rparr>)
   }"

text \<open>\<open>viewDidChangeBackingProperties\<close>.\<close>

definition viewDidChangeBackingProperties :: "ptr \<Rightarrow> world \<Rightarrow> world option" where
  "viewDidChangeBackingProperties self s = do {
     s1 \<leftarrow> updateMetalLayerDrawableSize self s;
     v \<leftarrow> views s1 self;
     s2 \<leftarrow> (case visage_window v of
               Some wp \<Rightarrow> resetBackingScale wp s1
             | None \<Rightarrow> Some s1);
     Some (s2\<lparr>diag := log_every ''viewDidChangeBackingProperties.last_backing_log_us'' 1000000
                          ''backing'' ''backingScale=%.2f'' (diag s2)\<rparr>)
   }"


section \<open>WindowMac: creation, showing, destruction\<close>

text \<open>
  What AppKit does when a view is installed in or taken out of a window, as far as it
  reaches code of the file: before the move it sends \<open>viewWillMoveToWindow:\<close> to the view.
\<close>

definition setContentView :: "ptr \<Rightarrow> ptr option \<Rightarrow> world \<Rightarrow> world option" where
  "setContentView window content s =
     (case content of
        None \<Rightarrow> modify_ns_window window (\<lambda>n. n\<lparr>contentView := None\<rparr>) s
      | Some v \<Rightarrow> do {
          s1 \<leftarrow> viewWillMoveToWindow v (Some window) s;
          s2 \<leftarrow> modify_view v (\<lambda>x. x\<lparr>view_window := Some window\<rparr>) s1;
          modify_ns_window window (\<lambda>n. n\<lparr>contentView := Some v\<rparr>) s2
        })"

definition addSubview :: "ptr \<Rightarrow> ptr \<Rightarrow> world \<Rightarrow> world option" where
  "addSubview parent v s = do {
     host_window \<leftarrow> host_views s parent;
     s1 \<leftarrow> (case host_window of
               Some nw \<Rightarrow> do {
                 s' \<leftarrow> viewWillMoveToWindow v (Some nw) s;
                 modify_view v (\<lambda>x. x\<lparr>view_window := Some nw\<rparr>) s'
               }
             | None \<Rightarrow> Some s);
     modify_view v (\<lambda>x. x\<lparr>superview := Some parent\<rparr>) s1
   }"

definition removeFromSuperview :: "ptr \<Rightarrow> world \<Rightarrow> world option" where
  "removeFromSuperview v s = do {
     x \<leftarrow> views s v;
     s1 \<leftarrow> (case view_window x of
               Some nw \<Rightarrow> viewWillMoveToWindow v None s
             | None \<Rightarrow> Some s);
     modify_view v (\<lambda>x. x\<lparr>view_window := None, superview := None\<rparr>) s1
   }"

definition kNativeStyle :: "NSWindowStyleMask list" where
  "kNativeStyle = [NSWindowStyleMaskTitled, NSWindowStyleMaskResizable,
                   NSWindowStyleMaskMiniaturizable, NSWindowStyleMaskClosable]"

definition kClientStyle :: "NSWindowStyleMask list" where
  "kClientStyle = kNativeStyle @ [NSWindowStyleMaskFullSizeContentView]"

definition kPopupStyle :: "NSWindowStyleMask list" where
  "kPopupStyle = []"

text \<open>\<open>WindowMac::createWindow\<close>. The new \<open>NSWindow\<close> is off screen and has the backing
  scale factor of the screen.\<close>

definition createWindow :: "ptr \<Rightarrow> world \<Rightarrow> world option" where
  "createWindow this s = do {
     w \<leftarrow> windows s this;
     let style_mask = (if decoration w = Popup then kPopupStyle
                       else if decoration w = Client then kClientStyle
                       else kNativeStyle);
     (case allocate s of (window, s0) \<Rightarrow> do {
        let n = \<lparr>contentRect = last_content_rect w, styleMask = style_mask,
                  level = NSNormalWindowLevel, titlebarAppearsTransparent = False,
                  backingScaleFactor = screen_scale s0, contentView = None,
                  firstResponder = None, acceptsMouseMovedEvents = False,
                  ignoresMouseEvents = False, onScreen = False, keyWindow = False,
                  occlusionVisible = False\<rparr>;
        let n1 = (if decoration w = Popup then n\<lparr>level := NSStatusWindowLevel\<rparr>
                  else if decoration w = Client then n\<lparr>titlebarAppearsTransparent := True\<rparr>
                  else n);
        let s1 = s0\<lparr>ns_windows := (ns_windows s0)(window \<mapsto> n1)\<rparr>;
        s2 \<leftarrow> modify_window this (\<lambda>w. w\<lparr>window_handle := Some window\<rparr>) s1;
        s3 \<leftarrow> setDpiScale this (backingScaleFactor n1) s2;
        w3 \<leftarrow> windows s3 this;
        client_width \<leftarrow>
          double_to_int (std_round (fst (rect_size (last_content_rect w3)) * dpi_scale w3));
        client_height \<leftarrow>
          double_to_int (std_round (snd (rect_size (last_content_rect w3)) * dpi_scale w3));
        let s4 = record_call (HandleResized this client_width client_height) s3;
        s5 \<leftarrow> setContentView window (view w3) s4;
        modify_ns_window window (\<lambda>n. n\<lparr>firstResponder := view w3\<rparr>) s5
      })
   }"


text \<open>The constructor of an embedded window; \<open>parent_handle\<close> is the host's view,
  \<open>None\<close> for a null handle. As above, the result is \<open>None\<close> for \<open>scale = 0\<close>.\<close>

definition WindowMac_embedded ::
    "Window \<Rightarrow> int \<Rightarrow> int \<Rightarrow> real \<Rightarrow> ptr option \<Rightarrow> world \<Rightarrow> (ptr \<times> world) option" where
  "WindowMac_embedded base width height scale parent_handle s =
     (if scale = 0 then None else
      case allocate s of (this, s0) \<Rightarrow> do {
        let w = \<lparr>dpi_scale = dpi_scale base, visible = visible base, decoration = Native,
                  parent_view = parent_handle, window_handle = None, view = None,
                  last_content_rect = NSZeroRect\<rparr>;
        let s1 = s0\<lparr>windows := (windows s0)(this \<mapsto> w)\<rparr>;
        let view_frame = NSMakeRect 0 0 (real_of_int width / scale) (real_of_int height / scale);
        (v, s2) \<leftarrow> initWithFrame view_frame (Some this) s1;
        s3 \<leftarrow> modify_window this (\<lambda>w. w\<lparr>view := Some v\<rparr>) s2;
        s4 \<leftarrow> modify_view v (\<lambda>x. x\<lparr>allow_quit := False\<rparr>) s3;
        s5 \<leftarrow> (case parent_handle of
                  Some parent \<Rightarrow> addSubview parent v s4
                | None \<Rightarrow> Some s4);
        Some (this, register_window this s5)
      })"

text \<open>The destructor; at its end the object is gone from the heap. The view is
  reference counted and stays.\<close>

definition WindowMac_destroy :: "ptr \<Rightarrow> world \<Rightarrow> world option" where
  "WindowMac_destroy this s = do {
     s2 \<leftarrow> hide this (unregister_window this s);
     w \<leftarrow> windows s2 this;
     s3 \<leftarrow> (case view w of
               Some v \<Rightarrow> modify_view v (\<lambda>x. x\<lparr>visage_window := None\<rparr>) s2
             | None \<Rightarrow> Some s2);
     s4 \<leftarrow> (if parent_view w \<noteq> None
            then (case view w of Some v \<Rightarrow> removeFromSuperview v s3 | None \<Rightarrow> Some s3)
            else Some s3);
     Some (s4\<lparr>windows := (windows s4)(this := None)\<rparr>)
   }"

text \<open>\<open>WindowMac::show\<close>: \<open>orderFront:\<close> puts the window on screen,
  \<open>makeKeyAndOrderFront:\<close> also makes it the key window.\<close>

definition "show" :: "ptr \<Rightarrow> world \<Rightarrow> world option" where
  "show this s = do {
     w \<leftarrow> windows s this;
     s1 \<leftarrow> (if parent_view w = None then do {
               s' \<leftarrow> (if window_handle w = None then createWindow this s else Some s);
               w' \<leftarrow> windows s' this;
               (case window_handle w' of
                  None \<Rightarrow> Some s'
                | Some nw \<Rightarrow>
                    if isPopup w' then modify_ns_window nw (\<lambda>n. n\<lparr>onScreen := True\<rparr>) s'
                    else modify_ns_window nw (\<lambda>n. n\<lparr>onScreen := True, keyWindow := True\<rparr>) s')
             } else Some s);
     Some (record_call (NotifyShow this) s1)
   }"


section \<open>Events from the operating system\<close>

text \<open>
  A change of a window's occlusion state: the notification centre sends
  \<open>windowOcclusionChanged:\<close> to every observer registered for that window, in the order of
  registration.
\<close>

fun deliver_occlusion :: "(ptr \<times> ptr) list \<Rightarrow> ptr \<Rightarrow> world \<Rightarrow> world option" where
  "deliver_occlusion [] window s = Some s"
| "deliver_occlusion ((observer, object) # rest) window s =
     (if object = window
      then do { s1 \<leftarrow> windowOcclusionChanged observer window s;
                deliver_occlusion rest window s1 }
      else deliver_occlusion rest window s)"

definition occlusion_state_changed :: "ptr \<Rightarrow> bool \<Rightarrow> world \<Rightarrow> world option" where
  "occlusion_state_changed window b s = do {
     s1 \<leftarrow> modify_ns_window window (\<lambda>n. n\<lparr>occlusionVisible := b\<rparr>) s;
     deliver_occlusion (observers s1) window s1
   }"

text \<open>
  The events that reach a view from outside: the host or AppKit moves it to a window or
  out of its window; a window's occlusion state changes; the backing scale of the window a
  view is in changes to \<open>k\<close> and the view is told; the layer of a view is asked to
  display; a view is resized.
\<close>

datatype os_event =
    MoveToWindow ptr "ptr option"
  | OcclusionStateChanged ptr bool
  | BackingScaleChanged ptr real
  | DisplayLayer ptr
  | FrameSizeChanged ptr CGSize

fun deliver_event :: "os_event \<Rightarrow> world \<Rightarrow> world option" where
  "deliver_event (MoveToWindow v new_window) s = do {
     s1 \<leftarrow> viewWillMoveToWindow v new_window s;
     modify_view v (\<lambda>x. x\<lparr>view_window := new_window\<rparr>) s1
   }"
| "deliver_event (OcclusionStateChanged window b) s = occlusion_state_changed window b s"
| "deliver_event (BackingScaleChanged v k) s = do {
     x \<leftarrow> views s v;
     s1 \<leftarrow> (case view_window x of
               Some nw \<Rightarrow> modify_ns_window nw (\<lambda>n. n\<lparr>backingScaleFactor := k\<rparr>) s
             | None \<Rightarrow> Some s);
     viewDidChangeBackingProperties v s1
   }"
| "deliver_event (DisplayLayer v) s = displayLayer v s"
| "deliver_event (FrameSizeChanged v newSize) s = setFrameSize v newSize s"

fun deliver_events :: "os_event list \<Rightarrow> world \<Rightarrow> world option" where
  "deliver_events [] s = Some s"
| "deliver_events (e # es) s = do { s1 \<leftarrow> deliver_event e s; deliver_events es s1 }"


section \<open>Well-formed views, and the surface invariant\<close>

text \<open>
  A view is live in a world when it is on the heap, the window it is installed in (if any)
  is on the heap, and so is the \<open>WindowMac\<close> it points back to (if any) together with that
  window's native window (if any): the pointers the code follows from the view are not
  dangling.
\<close>

definition live_view :: "world \<Rightarrow> ptr \<Rightarrow> bool" where
  "live_view s self =
     (case views s self of None \<Rightarrow> False
      | Some x \<Rightarrow>
          (case view_window x of None \<Rightarrow> True | Some nw \<Rightarrow> ns_windows s nw \<noteq> None)
          \<and> (case visage_window x of None \<Rightarrow> True
             | Some wp \<Rightarrow>
                 (case windows s wp of None \<Rightarrow> False
                  | Some w \<Rightarrow>
                      (case window_handle w of None \<Rightarrow> True
                       | Some nw \<Rightarrow> ns_windows s nw \<noteq> None))))"

text \<open>The invariant of the render surface: the drawable size of the view's layer is the
  bounds size times the layer's contents scale. A view without a layer has no drawable.\<close>

definition drawable_is_scaled_bounds :: "VisageAppView \<Rightarrow> bool" where
  "drawable_is_scaled_bounds x =
     (case layer x of None \<Rightarrow> True
      | Some l \<Rightarrow> drawableSize l = (fst (bounds_size x) * contentsScale l,
                                     snd (bounds_size x) * contentsScale l))"


section \<open>Concrete states for the worked examples\<close>

text \<open>Diagnostics switched off, and switched on with a clock that advances by two
  seconds from one reading to the next.\<close>

definition quiet :: diagnostics where
  "quiet = \<lparr>debug_enabled = False, clock = (\<lambda>n. 0), clock_reads = 0, stderr_lines = [],
             statics = (\<lambda>name. 0)\<rparr>"

definition verbose :: diagnostics where
  "verbose = \<lparr>debug_enabled = True, clock = (\<lambda>n. 2000000 * (1 + of_nat n)), clock_reads = 0,
               stderr_lines = [], statics = (\<lambda>name. 0)\<rparr>"

text \<open>
  \<open>surface_of r p\<close> reads off the world \<open>r\<close> the bounds size of the view at \<open>p\<close> and the
  contents scale and drawable size of its layer. \<open>empty_world\<close> has no objects; its screen
  has backing scale factor 2. \<open>standalone_world\<close> is the world after
  \<open>WindowMac_standalone base_window 0 0 1600 1200 2 Native\<close> in the empty world: the
  window object at address 1, its view at 2, its native window at 3.
\<close>

definition surface_of :: "world option \<Rightarrow> ptr \<Rightarrow> (CGSize \<times> real \<times> CGSize) option" where
  "surface_of r p =
     (case r of None \<Rightarrow> None
      | Some s \<Rightarrow>
          (case views s p of None \<Rightarrow> None
           | Some x \<Rightarrow>
               map_option (\<lambda>l. (bounds_size x, contentsScale l, drawableSize l)) (layer x)))"

definition empty_world :: world where
  "empty_world =
     \<lparr>windows = Map.empty, views = Map.empty, ns_windows = Map.empty, host_views = Map.empty,
      native_window_lookup = [], observers = [], running_event_loop = False, app_stops = 0,
      next_address = 1, screen_scale = 2, framework_calls = [], diag = quiet\<rparr>"


definition standalone_window :: WindowMac where
  "standalone_window =
     \<lparr>dpi_scale = 2, visible = True, decoration = Native, parent_view = None,
      window_handle = Some 3, view = Some 2,
      last_content_rect = \<lparr>origin = (0, 0), rect_size = (800, 600)\<rparr>\<rparr>"

definition standalone_view :: VisageAppView where
  "standalone_view =
     \<lparr>visage_window = Some 1, allow_quit = True, frame_size = (800, 600),
      layer = Some \<lparr>contentsScale = 1, drawableSize = (800, 600),
                    maximumDrawableCount = 2, presentsWithTransaction = False\<rparr>,
      view_window = Some 3, superview = None, displayLink_running = True,
      last_display_log_us = 0, last_draw_log_us = 0, last_render_us = 0,
      display_count = 0, draw_count = 0\<rparr>"

definition standalone_ns_window :: NSWindow where
  "standalone_ns_window =
     \<lparr>contentRect = \<lparr>origin = (0, 0), rect_size = (800, 600)\<rparr>,
      styleMask = kNativeStyle, level = NSNormalWindowLevel,
      titlebarAppearsTransparent = False, backingScaleFactor = 2,
      contentView = Some 2, firstResponder = Some 2, acceptsMouseMovedEvents = True,
      ignoresMouseEvents = False, onScreen = False, keyWindow = False,
      occlusionVisible = False\<rparr>"

definition standalone_world :: world where
  "standalone_world =
     \<lparr>windows = [1 \<mapsto> standalone_window], views = [2 \<mapsto> standalone_view],
      ns_windows = [3 \<mapsto> standalone_ns_window],
      host_views = Map.empty, native_window_lookup = [(2, 1)], observers = [(2, 3)],
      running_event_loop = False, app_stops = 0, next_address = 4, screen_scale = 2,
      framework_calls = [HandleResized 1 1600 1200], diag = quiet\<rparr>"

text \<open>\<open>destroyed_world\<close> is \<open>standalone_world\<close> after the destructor of the window
  object at address 1.\<close>

definition destroyed_world :: world where
  "destroyed_world =
     standalone_world
       \<lparr>windows := Map.empty,
        views := [2 \<mapsto> standalone_view\<lparr>visage_window := None\<rparr>],
        ns_windows := [3 \<mapsto> standalone_ns_window\<lparr>onScreen := False, keyWindow := False\<rparr>],
        native_window_lookup := [],
        framework_calls := [HandleResized 1 1600 1200, NotifyHide 1]\<rparr>"


text \<open>An editor of 800 by 600 attached to the window at address 1, with the frames 5 and
  6 waiting to be redrawn; frame 5 asks for a redraw of 7 and of itself when it is drawn.
  Under \<open>hidden_window_methods\<close> the window reports itself not visible, under
  \<open>visible_window_methods\<close> visible.\<close>

definition stale_editor :: ApplicationEditor where
  "stale_editor =
     \<lparr>editor_window = Some 1, frame_width = 800, frame_height = 600, initialized = True,
      stale_children = [5, 6], drawing_children = [],
      canvas = \<lparr>drawn_regions = [], submissions = 0\<rparr>, editor_diagnostics = verbose\<rparr>"

definition hidden_window_methods :: Frame_methods where
  "hidden_window_methods =
     \<lparr>isVisible = (\<lambda>w. False), frame_init = (\<lambda>e. e\<lparr>initialized := True\<rparr>),
      frame_name = (\<lambda>f. ''frame''), isDrawing = (\<lambda>f. True),
      redraw_requests = (\<lambda>f. if f = 5 then [7, 5] else [])\<rparr>"

definition visible_window_methods :: Frame_methods where
  "visible_window_methods = hidden_window_methods\<lparr>isVisible := (\<lambda>w. True)\<rparr>"


text \<open>
  What the claims about embedded windows speak of. \<open>back_references s v\<close> is the
  \<open>visage_window\<close> of the view at \<open>v\<close>; \<open>embedding_and_visibility s p\<close> is the parent
  view and the visibility flag of the window object at \<open>p\<close>.
\<close>

definition back_references :: "world \<Rightarrow> ptr \<Rightarrow> ptr option option" where
  "back_references s p = map_option visage_window (views s p)"

definition embedding_and_visibility :: "world \<Rightarrow> ptr \<Rightarrow> (ptr option \<times> bool) option" where
  "embedding_and_visibility s p = map_option (\<lambda>w. (parent_view w, visible w)) (windows s p)"

text \<open>The occlusion subscriptions on behalf of the window at \<open>this\<close>: the entries
  of the notification centre whose observer is a view that belongs to that window (the
  only call of \<open>addObserver:\<close> in the file subscribes \<open>self\<close>, a view).\<close>

definition occlusion_observers_of :: "world \<Rightarrow> ptr \<Rightarrow> (ptr \<times> ptr) list" where
  "occlusion_observers_of s this =
     filter (\<lambda>(observer, object). back_references s observer = Some (Some this))
       (observers s)"

text \<open>The two addresses the next constructor will use (\<open>next_address\<close> for the
  window object, the one after it for its view) are not yet known to the notification
  centre: no subscribed observer is at the view's address or belongs to a window at the
  object's address.\<close>

definition fresh_for_observers :: "world \<Rightarrow> bool" where
  "fresh_for_observers s =
     list_all (\<lambda>(observer, object). observer \<noteq> Suc (next_address s)
                 \<and> back_references s observer \<noteq> Some (Some (next_address s)))
       (observers s)"

text \<open>The visibility flag of the window at \<open>p\<close> in the outcome of an operation.\<close>

definition visibility_of :: "world option \<Rightarrow> ptr \<Rightarrow> bool option" where
  "visibility_of r p =
     (case r of None \<Rightarrow> None | Some s \<Rightarrow> map_option visible (windows s p))"

text \<open>
  A plugin host: its view at address 50 sits in its window at address 60, which is on
  screen. \<open>embedded_world\<close> is the outcome of
  \<open>WindowMac_embedded hidden_base 1600 1200 2 (Some 50)\<close> in \<open>host_world\<close>: the window
  object at address 100 and its view at 101. \<open>host_events\<close> are two occlusion changes
  of the host's window, a move of the view into that window, and a redraw.
\<close>

definition host_ns_window :: NSWindow where
  "host_ns_window =
     \<lparr>contentRect = \<lparr>origin = (0, 0), rect_size = (1024, 768)\<rparr>,
      styleMask = kNativeStyle, level = NSNormalWindowLevel,
      titlebarAppearsTransparent = False, backingScaleFactor = 2,
      contentView = None, firstResponder = None, acceptsMouseMovedEvents = False,
      ignoresMouseEvents = False, onScreen = True, keyWindow = True,
      occlusionVisible = True\<rparr>"

definition host_world :: world where
  "host_world =
     empty_world\<lparr>host_views := [50 \<mapsto> Some 60], ns_windows := [60 \<mapsto> host_ns_window],
                  next_address := 100\<rparr>"

definition hidden_base :: Window where
  "hidden_base = \<lparr>dpi_scale = 1, visible = False\<rparr>"

definition embedded_window :: WindowMac where
  "embedded_window =
     \<lparr>dpi_scale = 2, visible = True, decoration = Native, parent_view = Some 50,
      window_handle = Some 60, view = Some 101, last_content_rect = NSZeroRect\<rparr>"

definition embedded_view :: VisageAppView where
  "embedded_view =
     \<lparr>visage_window = Some 100, allow_quit = False, frame_size = (800, 600),
      layer = Some \<lparr>contentsScale = 1, drawableSize = (800, 600),
                    maximumDrawableCount = 2, presentsWithTransaction = False\<rparr>,
      view_window = Some 60, superview = Some 50, displayLink_running = True,
      last_display_log_us = 0, last_draw_log_us = 0, last_render_us = 0,
      display_count = 0, draw_count = 0\<rparr>"

definition embedded_world :: world where
  "embedded_world =
     host_world
       \<lparr>windows := [100 \<mapsto> embedded_window], views := [101 \<mapsto> embedded_view],
        ns_windows := [60 \<mapsto> host_ns_window
           \<lparr>firstResponder := Some 101, acceptsMouseMovedEvents := True\<rparr>],
        native_window_lookup := [(101, 100)], next_address := 102\<rparr>"

definition host_events :: "os_event list" where
  "host_events =
     [OcclusionStateChanged 60 False, MoveToWindow 101 (Some 60),
      OcclusionStateChanged 60 False, DisplayLayer 101]"

text \<open>Two worlds agree on what the notification centre and the embedded windows
  depend on: the back-references of all views, the subscriptions, and the parent view and
  visibility of all window objects. \<open>quiet_result\<close> says so of the outcome of an
  operation that returns.\<close>

definition quiet_step :: "world \<Rightarrow> world \<Rightarrow> bool" where
  "quiet_step s s' \<longleftrightarrow>
     back_references s' = back_references s
     \<and> observers s' = observers s
     \<and> embedding_and_visibility s' = embedding_and_visibility s"

definition quiet_result :: "world \<Rightarrow> world option \<Rightarrow> bool" where
  "quiet_result s r = (case r of None \<Rightarrow> True | Some s' \<Rightarrow> quiet_step s s')"


section \<open>Properties of the registry\<close>

lemma map_find_assign:
  "map_find h (map_assign k v m) = (if h = k then Some v else map_find h m)"
  by (induction m) auto

lemma map_find_erase:
  "map_find h (map_erase k m) = (if h = k then None else map_find h m)"
  by (induction m) auto

lemma map_erase_absent: "map_find k m = None \<Longrightarrow> map_erase k m = m"
  by (induction m) (auto split: if_splits)

lemma findWindow_addWindow:
  "findWindow h (addWindow nativeHandle w m) =
     (if h = nativeHandle w then Some w else findWindow h m)"
  by (simp add: findWindow_def addWindow_def map_find_assign)

lemma findWindow_removeWindow:
  "findWindow h (removeWindow nativeHandle w m) =
     (if h = nativeHandle w then None else findWindow h m)"
  by (cases "map_find (nativeHandle w) m")
     (auto simp: findWindow_def removeWindow_def map_count_def map_find_erase)

lemma requestAllToClose_loop_conv:
  "requestAllToClose_loop closeRequested m result =
     (result \<and> (\<forall>(h, window) \<in> set m. closeRequested window))"
proof (induction m arbitrary: result)
  case Nil
  show ?case by simp
next
  case (Cons e m)
  obtain h window where e: "e = (h, window)" by (cases e)
  show ?case
    unfolding e by (cases "closeRequested window"; cases result) (simp_all add: Cons.IH)
qed

lemma set_map_assign:
  "set (map_assign k v m) \<subseteq> insert (k, v) (set m)"
proof (induction m)
  case Nil
  then show ?case by simp
next
  case (Cons e m)
  obtain k' v' where e: "e = (k', v')" by (cases e)
  show ?case
    using Cons.IH unfolding e by (cases "k' = k"; cases "k < k'") auto
qed

lemma map_assign_mem: "(k, v) \<in> set (map_assign k v m)"
  by (induction m) auto

lemma findWindow_registry_calls_other:
  "\<forall>c \<in> set calls. nativeHandle (call_window c) \<noteq> h \<Longrightarrow>
     findWindow h (registry_calls nativeHandle calls m) = findWindow h m"
proof (induction calls arbitrary: m)
  case Nil
  then show ?case by (simp add: registry_calls_def)
next
  case (Cons c calls)
  have "findWindow h (perform_call nativeHandle m c) = findWindow h m"
    using Cons.prems
    by (cases c) (auto simp: findWindow_addWindow findWindow_removeWindow)
  with Cons show ?case by (simp add: registry_calls_def)
qed

text \<open>
  C2. \<open>requestAllToClose\<close> is true exactly when \<open>closeRequested\<close> is true of every
  window in the registry; registering a window whose \<open>closeRequested\<close> is false makes it
  false whatever the other entries answer; and \<open>applicationShouldTerminate\<close> answers
  \<open>NSTerminateNow\<close> exactly when \<open>requestAllToClose\<close> is true and
  \<open>NSTerminateCancel\<close> exactly when it is false.
\<close>

theorem requestAllToClose_iff_every_window:
  "(requestAllToClose closeRequested m \<longleftrightarrow> (\<forall>(h, window) \<in> set m. closeRequested window))
   \<and> (\<not> closeRequested w \<longrightarrow> \<not> requestAllToClose closeRequested (addWindow nativeHandle w m))
   \<and> (applicationShouldTerminate closeRequested m = NSTerminateNow
        \<longleftrightarrow> requestAllToClose closeRequested m)
   \<and> (applicationShouldTerminate closeRequested m = NSTerminateCancel
        \<longleftrightarrow> \<not> requestAllToClose closeRequested m)"
proof -
  have all: "requestAllToClose closeRequested m' \<longleftrightarrow>
               (\<forall>(h, window) \<in> set m'. closeRequested window)" for m'
    by (simp add: requestAllToClose_def requestAllToClose_loop_conv)
  have "\<not> requestAllToClose closeRequested (addWindow nativeHandle w m)"
    if "\<not> closeRequested w"
  proof -
    have "(nativeHandle w, w) \<in> set (addWindow nativeHandle w m)"
      by (simp add: addWindow_def map_assign_mem)
    with that show ?thesis unfolding all by blast
  qed
  then show ?thesis
    using all [of m] by (auto simp: applicationShouldTerminate_def)
qed

theorem requestAllToClose_iff_every_window_witness:
  "requestAllToClose ready_below_3 [(101, 1), (102, 2)]
   \<and> \<not> ready_below_3 3
   \<and> \<not> requestAllToClose ready_below_3 (addWindow own_view_handle 3 [(101, 1), (102, 2)])
   \<and> applicationShouldTerminate ready_below_3 [(101, 1), (102, 2)] = NSTerminateNow
   \<and> applicationShouldTerminate ready_below_3 [(101, 1), (102, 2), (103, 3)] = NSTerminateCancel"
  using requestAllToClose_iff_every_window
          [of ready_below_3 "[(101, 1), (102, 2)]" 3 own_view_handle]
        requestAllToClose_iff_every_window
          [of ready_below_3 "[(101, 1), (102, 2), (103, 3)]" 3 own_view_handle]
  by (simp add: ready_below_3_def)




text \<open>
  C8 as stated fails: with the handle 7 already mapped to window 1, \<open>addWindow\<close> of
  window 2 with the same handle changes the registry, and the handle now finds window 2.
\<close>

theorem addWindow_duplicate_handle_counterexample:
  "findWindow 7 [(7, 1)] = Some 1
   \<and> shared_view_handle 2 = 7
   \<and> addWindow shared_view_handle 2 [(7, 1)] \<noteq> [(7, 1)]
   \<and> findWindow 7 (addWindow shared_view_handle 2 [(7, 1)]) = Some 2"
  by (simp add: findWindow_def addWindow_def shared_view_handle_def)

text \<open>
  C8, amended. \<open>addWindow\<close> stores the window under its native handle whether or not
  the handle is already present: afterwards the handle finds the window just added (an
  existing entry for the handle is overwritten), every other handle finds what it found
  before, and the entries are those of before plus the new one.
\<close>

theorem addWindow_inserts_or_overwrites:
  "findWindow (nativeHandle w) (addWindow nativeHandle w m) = Some w
   \<and> (\<forall>h. h \<noteq> nativeHandle w \<longrightarrow>
          findWindow h (addWindow nativeHandle w m) = findWindow h m)
   \<and> set (addWindow nativeHandle w m) \<subseteq> insert (nativeHandle w, w) (set m)"
  by (simp add: findWindow_addWindow) (simp add: addWindow_def set_map_assign)

theorem addWindow_inserts_or_overwrites_witness:
  "findWindow (shared_view_handle 2) (addWindow shared_view_handle 2 [(7, 1), (9, 4)]) = Some 2
   \<and> findWindow 9 (addWindow shared_view_handle 2 [(7, 1), (9, 4)]) = Some 4
   \<and> set (addWindow shared_view_handle 2 [(7, 1), (9, 4)]) \<subseteq> {(7, 2), (7, 1), (9, 4)}"
  using addWindow_inserts_or_overwrites [of shared_view_handle 2 "[(7, 1), (9, 4)]"]
  by (simp add: shared_view_handle_def findWindow_def)

text \<open>
  C9. With no window registered \<open>requestAllToClose\<close> is true, and
  \<open>applicationShouldTerminate\<close> answers \<open>NSTerminateNow\<close>.
\<close>

theorem requestAllToClose_empty_registry:
  "requestAllToClose closeRequested [] = True
   \<and> applicationShouldTerminate closeRequested [] = NSTerminateNow"
  by (simp add: requestAllToClose_def applicationShouldTerminate_def)

section \<open>The editor's draw guard\<close>

lemma log_every_quiet: "\<not> debug_enabled d \<Longrightarrow> log_every name interval_us tag format d = d"
  by (simp add: log_every_def)

text \<open>
  C10. When the attached window reports itself not visible, or the editor's width or
  height is zero, \<open>ApplicationEditor::drawWindow\<close> returns without drawing: the canvas, the
  stale-children list, the drawing-children list and the initialised flag are as before;
  the only thing that can differ afterwards is the diagnostic state, and that only when
  the debug log is switched on.
\<close>

theorem drawWindow_skips_hidden_or_empty:
  assumes "(\<exists>w. editor_window e = Some w \<and> \<not> isVisible F w)
             \<or> frame_width e = 0 \<or> frame_height e = 0"
  shows "\<exists>e'. ApplicationEditor_drawWindow F e = Some e'
           \<and> canvas e' = canvas e
           \<and> stale_children e' = stale_children e
           \<and> drawing_children e' = drawing_children e
           \<and> initialized e' = initialized e
           \<and> e' = e\<lparr>editor_diagnostics := editor_diagnostics e'\<rparr>
           \<and> (\<not> debug_enabled (editor_diagnostics e) \<longrightarrow> e' = e)"
proof (cases "\<exists>w. editor_window e = Some w \<and> \<not> isVisible F w")
  case True
  then show ?thesis
    by (auto simp: ApplicationEditor_drawWindow_def log_every_quiet)
next
  case False
  with assms have size: "frame_width e = 0 \<or> frame_height e = 0" by blast
  from False have "\<not> (case editor_window e of None \<Rightarrow> False | Some w \<Rightarrow> \<not> isVisible F w)"
    by (cases "editor_window e") auto
  with size show ?thesis
    by (auto simp: ApplicationEditor_drawWindow_def log_every_quiet)
qed

theorem drawWindow_skips_hidden_or_empty_witness:
  "editor_window stale_editor = Some 1 \<and> \<not> isVisible hidden_window_methods 1
   \<and> (\<exists>e'. ApplicationEditor_drawWindow hidden_window_methods stale_editor = Some e'
          \<and> canvas e' = \<lparr>drawn_regions = [], submissions = 0\<rparr>
          \<and> stale_children e' = [5, 6]
          \<and> stderr_lines (editor_diagnostics e') = [(''drawWindow'', ''skipped (window hidden)'')])"
  using drawWindow_skips_hidden_or_empty [of stale_editor hidden_window_methods]
  by (auto simp: ApplicationEditor_drawWindow_def stale_editor_def hidden_window_methods_def
        verbose_def log_every_def shouldLogEvery_def microseconds_def visageDebugLog_def)

section \<open>The render surface\<close>

lemma modify_view_Some:
  "views s p = Some x \<Longrightarrow> modify_view p f s = Some (s\<lparr>views := (views s)(p \<mapsto> f x)\<rparr>)"
  by (simp add: modify_view_def)

lemma updateMetalLayerDrawableSize_result:
  assumes "views s self = Some x"
    and "\<forall>nw. view_window x = Some nw \<longrightarrow> ns_windows s nw \<noteq> None"
  shows "\<exists>s' x'. updateMetalLayerDrawableSize self s = Some s'
           \<and> views s' self = Some x'
           \<and> (\<forall>p. p \<noteq> self \<longrightarrow> views s' p = views s p)
           \<and> windows s' = windows s \<and> ns_windows s' = ns_windows s
           \<and> next_address s' = next_address s
           \<and> bounds_size x' = bounds_size x
           \<and> visage_window x' = visage_window x
           \<and> view_window x' = view_window x
           \<and> (layer x' = None \<longleftrightarrow> layer x = None)
           \<and> drawable_is_scaled_bounds x'"
proof (cases "layer x")
  case None
  with assms(1) show ?thesis
    by (simp add: updateMetalLayerDrawableSize_def drawable_is_scaled_bounds_def)
next
  case (Some l)
  show ?thesis
  proof (cases "view_window x")
    case None
    with assms(1) Some show ?thesis
      by (simp add: updateMetalLayerDrawableSize_def drawable_is_scaled_bounds_def
            modify_view_Some bounds_size_def)
  next
    case (Some nw)
    with assms(2) obtain n where "ns_windows s nw = Some n" by auto
    with assms(1) \<open>layer x = Some l\<close> Some show ?thesis
      by (simp add: updateMetalLayerDrawableSize_def drawable_is_scaled_bounds_def
            modify_view_Some bounds_size_def)
  qed
qed

lemma modify_window_Some:
  "windows s p = Some w \<Longrightarrow> modify_window p f s = Some (s\<lparr>windows := (windows s)(p \<mapsto> f w)\<rparr>)"
  by (simp add: modify_window_def)

lemma modify_ns_window_Some:
  "ns_windows s p = Some n \<Longrightarrow>
     modify_ns_window p f s = Some (s\<lparr>ns_windows := (ns_windows s)(p \<mapsto> f n)\<rparr>)"
  by (simp add: modify_ns_window_def)

lemma resetBackingScale_result:
  assumes "windows s wp = Some w"
    and "\<forall>nw. window_handle w = Some nw \<longrightarrow> ns_windows s nw \<noteq> None"
  shows "\<exists>s'. resetBackingScale wp s = Some s' \<and> views s' = views s
           \<and> ns_windows s' = ns_windows s \<and> diag s' = diag s"
proof (cases "window_handle w")
  case None
  with assms(1) show ?thesis by (simp add: resetBackingScale_def)
next
  case (Some nw)
  with assms(2) obtain n where "ns_windows s nw = Some n" by auto
  with assms(1) Some show ?thesis
    by (simp add: resetBackingScale_def setDpiScale_def modify_window_Some)
qed

lemma initWithFrame_surface:
  "\<exists>s1 x. initWithFrame frame_rect window s = Some (next_address s, s1)
      \<and> views s1 (next_address s) = Some x \<and> layer x \<noteq> None
      \<and> bounds_size x = rect_size frame_rect \<and> drawable_is_scaled_bounds x"
  by (simp add: initWithFrame_def allocate_def makeBackingLayer_def
        updateMetalLayerDrawableSize_def modify_view_def drawable_is_scaled_bounds_def
        bounds_size_def)

lemma setFrameSize_surface:
  assumes "views s self = Some x0"
    and "\<forall>nw. view_window x0 = Some nw \<longrightarrow> ns_windows s nw \<noteq> None"
  shows "\<exists>s2 x. setFrameSize self newSize s = Some s2 \<and> views s2 self = Some x
           \<and> bounds_size x = newSize \<and> (layer x = None \<longleftrightarrow> layer x0 = None)
           \<and> drawable_is_scaled_bounds x"
proof -
  let ?x1 = "x0\<lparr>frame_size := newSize\<rparr>"
  let ?s1 = "s\<lparr>views := (views s)(self \<mapsto> ?x1)\<rparr>"
  have v1: "views ?s1 self = Some ?x1" by simp
  have pre: "\<forall>nw. view_window ?x1 = Some nw \<longrightarrow> ns_windows ?s1 nw \<noteq> None"
    using assms(2) by simp
  from updateMetalLayerDrawableSize_result [OF v1 pre]
  obtain s' x' where
    "updateMetalLayerDrawableSize self ?s1 = Some s'" "views s' self = Some x'"
    "bounds_size x' = bounds_size ?x1" "layer x' = None \<longleftrightarrow> layer ?x1 = None"
    "drawable_is_scaled_bounds x'"
    by auto
  then show ?thesis
    using assms(1) by (simp add: setFrameSize_def modify_view_Some bounds_size_def)
qed

lemma viewDidChangeBackingProperties_surface:
  assumes "views s self = Some x0"
    and "\<forall>nw. view_window x0 = Some nw \<longrightarrow> ns_windows s nw \<noteq> None"
    and "\<forall>wp. visage_window x0 = Some wp \<longrightarrow>
           (\<exists>w. windows s wp = Some w
             \<and> (\<forall>nw. window_handle w = Some nw \<longrightarrow> ns_windows s nw \<noteq> None))"
  shows "\<exists>s3 x. viewDidChangeBackingProperties self s = Some s3 \<and> views s3 self = Some x
           \<and> bounds_size x = bounds_size x0 \<and> (layer x = None \<longleftrightarrow> layer x0 = None)
           \<and> drawable_is_scaled_bounds x"
proof -
  from updateMetalLayerDrawableSize_result [OF assms(1,2)]
  obtain s1 x1 where s1:
    "updateMetalLayerDrawableSize self s = Some s1" "views s1 self = Some x1"
    "windows s1 = windows s" "ns_windows s1 = ns_windows s"
    "bounds_size x1 = bounds_size x0" "visage_window x1 = visage_window x0"
    "layer x1 = None \<longleftrightarrow> layer x0 = None" "drawable_is_scaled_bounds x1"
    by auto
  show ?thesis
  proof (cases "visage_window x0")
    case None
    with s1 show ?thesis by (simp add: viewDidChangeBackingProperties_def)
  next
    case (Some wp)
    with assms(3) obtain w where w: "windows s1 wp = Some w"
      "\<forall>nw. window_handle w = Some nw \<longrightarrow> ns_windows s1 nw \<noteq> None"
      unfolding s1(3,4) by blast
    from resetBackingScale_result [OF w]
    obtain s2 where "resetBackingScale wp s1 = Some s2" "views s2 = views s1"
      by auto
    with s1 Some show ?thesis by (simp add: viewDidChangeBackingProperties_def)
  qed
qed

text \<open>
  C4. After the creation of a view (\<open>initWithFrame:inWindow:\<close>), after \<open>setFrameSize:\<close>
  and after \<open>viewDidChangeBackingProperties\<close> on a live view, the drawable size of the
  view's Metal layer is the bounds size of the view times the contents scale of the layer,
  for every frame rectangle, every new size and every backing scale factor. A new view
  always has a layer, and its bounds size is that of the frame rectangle; after
  \<open>setFrameSize:\<close> the bounds size is the new size.
\<close>

theorem drawable_size_is_bounds_times_scale:
  assumes "live_view s self"
  shows "(\<exists>v s1 x. initWithFrame frame_rect window s = Some (v, s1) \<and> views s1 v = Some x
            \<and> layer x \<noteq> None \<and> bounds_size x = rect_size frame_rect
            \<and> drawable_is_scaled_bounds x)
       \<and> (\<exists>s2 x. setFrameSize self newSize s = Some s2 \<and> views s2 self = Some x
            \<and> bounds_size x = newSize \<and> drawable_is_scaled_bounds x)
       \<and> (\<exists>s3 x. viewDidChangeBackingProperties self s = Some s3 \<and> views s3 self = Some x
            \<and> drawable_is_scaled_bounds x)"
proof -
  from assms obtain x0 where x0: "views s self = Some x0"
    by (cases "views s self") (simp_all add: live_view_def)
  have win: "\<forall>nw. view_window x0 = Some nw \<longrightarrow> ns_windows s nw \<noteq> None"
    using assms x0 by (auto simp: live_view_def split: option.splits)
  have own: "\<forall>wp. visage_window x0 = Some wp \<longrightarrow>
               (\<exists>w. windows s wp = Some w
                 \<and> (\<forall>nw. window_handle w = Some nw \<longrightarrow> ns_windows s nw \<noteq> None))"
    using assms x0 by (auto simp: live_view_def split: option.splits)
  show ?thesis
    using initWithFrame_surface [of frame_rect window s]
      setFrameSize_surface [OF x0 win, of newSize]
      viewDidChangeBackingProperties_surface [OF x0 win own]
    by blast
qed

theorem drawable_size_is_bounds_times_scale_witness:
  "live_view standalone_world 2
   \<and> surface_of (map_option snd (initWithFrame (NSMakeRect 0 0 1 1) None standalone_world)) 4
       = Some ((1, 1), 1, (1, 1))
   \<and> surface_of (setFrameSize 2 (100, 50) standalone_world) 2 = Some ((100, 50), 2, (200, 100))
   \<and> surface_of (setFrameSize 2 (0, 0) standalone_world) 2 = Some ((0, 0), 2, (0, 0))
   \<and> surface_of (viewDidChangeBackingProperties 2 standalone_world) 2
       = Some ((800, 600), 2, (1600, 1200))"
  using drawable_size_is_bounds_times_scale
          [of standalone_world 2 "NSMakeRect 0 0 1 1" None "(100, 50)"]
        drawable_size_is_bounds_times_scale
          [of standalone_world 2 "NSMakeRect 0 0 1 1" None "(0, 0)"]
  by (simp add: live_view_def surface_of_def standalone_world_def standalone_window_def
        standalone_view_def standalone_ns_window_def initWithFrame_def
        allocate_def makeBackingLayer_def updateMetalLayerDrawableSize_def modify_view_def
        setFrameSize_def viewDidChangeBackingProperties_def resetBackingScale_def
        setDpiScale_def modify_window_def bounds_size_def NSMakeRect_def quiet_def
        log_every_def visageDebugLog_def)

section \<open>Pointer positions\<close>

text \<open>
  C6. For a view attached to its window, a pointer event at the view-local point
  \<open>(x, y)\<close>, in a view of height \<open>H\<close> whose window has DPI scale \<open>k\<close>, gets the position
  \<open>(x * k, (H - y) * k)\<close> from \<open>eventPosition:\<close>, and a drag at that point gets the same
  from \<open>dragPosition:\<close>; in particular a point with \<open>y = 0\<close> gets the vertical coordinate
  \<open>H * k\<close>. Computing the position changes nothing but the diagnostic state.
\<close>

theorem eventPosition_flips_and_scales:
  assumes "views s self = Some v" and "visage_window v = Some wp" and "windows s wp = Some w"
  shows "(\<exists>s'. eventPosition self (x, y) s
                = Some ((x * dpi_scale w, (snd (frame_size v) - y) * dpi_scale w), s')
              \<and> s' = s\<lparr>diag := diag s'\<rparr>)
       \<and> dragPosition self (x, y) s
           = Some (x * dpi_scale w, (snd (frame_size v) - y) * dpi_scale w)
       \<and> (\<exists>s'. eventPosition self (x, 0) s
                = Some ((x * dpi_scale w, snd (frame_size v) * dpi_scale w), s'))
       \<and> dragPosition self (x, 0) s = Some (x * dpi_scale w, snd (frame_size v) * dpi_scale w)"
  using assms by (simp add: eventPosition_def dragPosition_def scale_point_def)

theorem eventPosition_flips_and_scales_witness:
  "views standalone_world 2 \<noteq> None
   \<and> map_option fst (eventPosition 2 (10, 0) standalone_world) = Some (20, 1200)
   \<and> map_option fst (eventPosition 2 (10, 600) standalone_world) = Some (20, 0)
   \<and> dragPosition 2 (400, 150) standalone_world = Some (800, 900)"
  using eventPosition_flips_and_scales [of standalone_world 2 standalone_view 1 standalone_window 10 0]
        eventPosition_flips_and_scales [of standalone_world 2 standalone_view 1 standalone_window 10 600]
        eventPosition_flips_and_scales [of standalone_world 2 standalone_view 1 standalone_window 400 150]
  by (auto simp: standalone_world_def standalone_view_def standalone_window_def)

text \<open>Without the back-reference there is no position: the code goes through the null
  pointer.\<close>

lemma eventPosition_detached:
  "views s self = Some v \<Longrightarrow> visage_window v = None \<Longrightarrow> eventPosition self p s = None"
  by (simp add: eventPosition_def)

section \<open>Redraws after the window is gone\<close>

lemma drawWindow_detached:
  assumes "views s self = Some x" and "visage_window x = None"
  shows "VisageAppView_drawWindow self s
           = Some (s\<lparr>diag := log_every ''drawWindow.last_missing_log_us'' 1000000
                                ''drawWindow'' ''missing visage_window'' (diag s)\<rparr>)"
  using assms by (simp add: VisageAppView_drawWindow_def)

lemma displayLayer_detached:
  assumes "views s self = Some x" and "visage_window x = None"
  shows "\<exists>s' x'. displayLayer self s = Some s'
           \<and> views s' self = Some x' \<and> visage_window x' = None
           \<and> draw_count x' = draw_count x + 1
           \<and> framework_calls s' = framework_calls s
           \<and> windows s' = windows s"
proof -
  let ?x1 = "x\<lparr>draw_count := draw_count x + 1\<rparr>"
  let ?s1 = "s\<lparr>views := (views s)(self \<mapsto> ?x1)\<rparr>"
  have 1: "modify_view self (\<lambda>v. v\<lparr>draw_count := draw_count v + 1\<rparr>) s = Some ?s1"
    using assms(1) by (simp add: modify_view_Some)
  show ?thesis
    unfolding displayLayer_def 1
    by (simp add: drawWindow_detached [where x = ?x1] assms modify_view_def
          microseconds_def shouldLogEvery_def  split: prod.splits)
qed

lemma redraws_detached:
  assumes "views s self = Some x" and "visage_window x = None"
  shows "\<exists>s' x'. deliver_events (replicate n (DisplayLayer self)) s = Some s'
           \<and> views s' self = Some x' \<and> visage_window x' = None
           \<and> draw_count x' = draw_count x + of_nat n
           \<and> framework_calls s' = framework_calls s"
  using assms
proof (induction n arbitrary: s x)
  case 0
  then show ?case by simp
next
  case (Suc n)
  from displayLayer_detached [OF Suc.prems]
  obtain s1 x1 where s1: "displayLayer self s = Some s1" "views s1 self = Some x1"
    "visage_window x1 = None" "draw_count x1 = draw_count x + 1"
    "framework_calls s1 = framework_calls s"
    by auto
  from Suc.IH [OF s1(2,3)]
  obtain s' x' where "deliver_events (replicate n (DisplayLayer self)) s1 = Some s'"
    "views s' self = Some x'" "visage_window x' = None"
    "draw_count x' = draw_count x1 + of_nat n" "framework_calls s' = framework_calls s1"
    by auto
  with s1 show ?case by simp
qed

lemma hide_result:
  assumes "windows s this = Some w"
    and "\<forall>nw. window_handle w = Some nw \<longrightarrow> ns_windows s nw \<noteq> None"
  shows "\<exists>s'. hide this s = Some s' \<and> windows s' = windows s \<and> views s' = views s
           \<and> observers s' = observers s \<and> next_address s' = next_address s
           \<and> native_window_lookup s' = native_window_lookup s"
proof (cases "window_handle w")
  case None
  with assms(1) show ?thesis by (simp add: hide_def)
next
  case (Some nw)
  with assms(2) obtain n where "ns_windows s nw = Some n" by auto
  with assms(1) Some show ?thesis
    by (simp add: hide_def modify_ns_window_Some record_call_def)
qed

lemma viewWillMoveToWindow_nil_detached:
  "views s v = Some x \<Longrightarrow> visage_window x = None \<Longrightarrow> viewWillMoveToWindow v None s = Some s"
  by (simp add: viewWillMoveToWindow_def)

lemma removeFromSuperview_detached:
  assumes "views s v = Some x" and "visage_window x = None"
  shows "\<exists>s' x'. removeFromSuperview v s = Some s' \<and> views s' v = Some x'
           \<and> visage_window x' = None \<and> windows s' = windows s"
  using assms
  by (cases "view_window x")
     (simp_all add: removeFromSuperview_def viewWillMoveToWindow_nil_detached modify_view_Some)

lemma WindowMac_destroy_detaches:
  assumes "windows s this = Some w" and "view w = Some v" and "views s v = Some x"
    and "\<forall>nw. window_handle w = Some nw \<longrightarrow> ns_windows s nw \<noteq> None"
  shows "\<exists>s1 x1. WindowMac_destroy this s = Some s1 \<and> views s1 v = Some x1
           \<and> visage_window x1 = None \<and> windows s1 this = None"
proof -
  let ?s0 = "unregister_window this s"
  have "windows ?s0 this = Some w"
    and "\<forall>nw. window_handle w = Some nw \<longrightarrow> ns_windows ?s0 nw \<noteq> None"
    using assms by (simp_all add: unregister_window_def)
  from hide_result [OF this]
  obtain s2 where s2: "hide this ?s0 = Some s2" "windows s2 = windows ?s0"
    "views s2 = views ?s0"
    by auto
  have w2: "windows s2 this = Some w" and v2: "views s2 v = Some x"
    using s2 assms by (simp_all add: unregister_window_def)
  let ?x3 = "x\<lparr>visage_window := None\<rparr>"
  let ?s3 = "s2\<lparr>views := (views s2)(v \<mapsto> ?x3)\<rparr>"
  have s3: "modify_view v (\<lambda>x. x\<lparr>visage_window := None\<rparr>) s2 = Some ?s3"
    using v2 by (simp add: modify_view_Some)
  have v3: "views ?s3 v = Some ?x3" "visage_window ?x3 = None" by simp_all
  show ?thesis
  proof (cases "parent_view w")
    case None
    with s2 w2 s3 assms(2) show ?thesis by (simp add: WindowMac_destroy_def)
  next
    case (Some parent)
    from removeFromSuperview_detached [OF v3]
    obtain s4 x4 where "removeFromSuperview v ?s3 = Some s4" "views s4 v = Some x4"
      "visage_window x4 = None"
      by auto
    with Some s2 w2 s3 assms(2) show ?thesis by (simp add: WindowMac_destroy_def)
  qed
qed

text \<open>
  C3. In a state where the view's back-reference \<open>visage_window\<close> is null, \<open>drawWindow\<close> of
  the view returns normally (it is not a fault) and changes nothing but the diagnostic
  state, and that only when the debug log is switched on; any number of \<open>displayLayer:\<close>
  redraws in a row return normally, make no call into the framework (in particular no
  \<open>drawCallback\<close>), and leave the back-reference null. The destructor of \<open>WindowMac\<close>
  brings this state about: run on a live window object with a live view, it returns with
  the view's back-reference null.
\<close>

theorem redraw_after_detach_is_skipped:
  assumes "views s self = Some x" and "visage_window x = None"
  shows "(\<exists>d. VisageAppView_drawWindow self s = Some (s\<lparr>diag := d\<rparr>)
             \<and> (\<not> debug_enabled (diag s) \<longrightarrow> d = diag s))
       \<and> (\<forall>n. \<exists>s' x'. deliver_events (replicate n (DisplayLayer self)) s = Some s'
             \<and> framework_calls s' = framework_calls s
             \<and> views s' self = Some x' \<and> visage_window x' = None)
       \<and> (windows s0 this = Some w \<and> view w = Some v \<and> views s0 v \<noteq> None
            \<and> (\<forall>nw. window_handle w = Some nw \<longrightarrow> ns_windows s0 nw \<noteq> None)
          \<longrightarrow> (\<exists>s1 x1. WindowMac_destroy this s0 = Some s1 \<and> views s1 v = Some x1
                 \<and> visage_window x1 = None))"
proof (intro conjI allI impI)
  show "\<exists>d. VisageAppView_drawWindow self s = Some (s\<lparr>diag := d\<rparr>)
          \<and> (\<not> debug_enabled (diag s) \<longrightarrow> d = diag s)"
    unfolding drawWindow_detached [OF assms]
    by (intro exI conjI, rule refl) (simp add: log_every_quiet)
next
  fix n
  from redraws_detached [OF assms, of n]
  show "\<exists>s' x'. deliver_events (replicate n (DisplayLayer self)) s = Some s'
          \<and> framework_calls s' = framework_calls s
          \<and> views s' self = Some x' \<and> visage_window x' = None"
    by auto
next
  assume a: "windows s0 this = Some w \<and> view w = Some v \<and> views s0 v \<noteq> None
            \<and> (\<forall>nw. window_handle w = Some nw \<longrightarrow> ns_windows s0 nw \<noteq> None)"
  then obtain x0 where "views s0 v = Some x0" by auto
  with a WindowMac_destroy_detaches [of s0 this w v x0]
  show "\<exists>s1 x1. WindowMac_destroy this s0 = Some s1 \<and> views s1 v = Some x1
          \<and> visage_window x1 = None"
    by auto
qed

theorem redraw_after_detach_is_skipped_witness:
  "WindowMac_destroy 1 standalone_world = Some destroyed_world
   \<and> views destroyed_world 2 = Some (standalone_view\<lparr>visage_window := None\<rparr>)
   \<and> map_option framework_calls (deliver_events (replicate 3 (DisplayLayer 2)) destroyed_world)
       = Some [HandleResized 1 1600 1200, NotifyHide 1]
   \<and> map_option framework_calls (VisageAppView_drawWindow 2 destroyed_world)
       = Some [HandleResized 1 1600 1200, NotifyHide 1]
   \<and> map_option framework_calls (displayLayer 2 standalone_world)
       = Some [HandleResized 1 1600 1200, DrawCallback 1 0]"
proof -
  have destroyed: "WindowMac_destroy 1 standalone_world = Some destroyed_world"
    by (simp add: WindowMac_destroy_def unregister_window_def hide_def standalone_world_def
          standalone_window_def standalone_view_def standalone_ns_window_def
          destroyed_world_def removeWindow_def map_count_def WindowMac_nativeHandle_def
          modify_ns_window_def record_call_def modify_view_def)
  have detached: "views destroyed_world 2 = Some (standalone_view\<lparr>visage_window := None\<rparr>)"
    "visage_window (standalone_view\<lparr>visage_window := None\<rparr>) = None"
    by (simp_all add: destroyed_world_def)
  have calls: "framework_calls destroyed_world = [HandleResized 1 1600 1200, NotifyHide 1]"
    by (simp add: destroyed_world_def)
  have attached: "map_option framework_calls (displayLayer 2 standalone_world)
                    = Some [HandleResized 1 1600 1200, DrawCallback 1 0]"
    by (simp add: displayLayer_def VisageAppView_drawWindow_def modify_view_def
          standalone_world_def standalone_view_def standalone_window_def quiet_def
          microseconds_def record_call_def)
  from redraw_after_detach_is_skipped
         [OF detached, of standalone_world 1 standalone_window 2]
  have "(\<exists>d. VisageAppView_drawWindow 2 destroyed_world = Some (destroyed_world\<lparr>diag := d\<rparr>))
        \<and> (\<exists>s' x'. deliver_events (replicate 3 (DisplayLayer 2)) destroyed_world = Some s'
              \<and> framework_calls s' = framework_calls destroyed_world)"
    by blast
  with destroyed detached(1) calls attached show ?thesis by auto
qed

section \<open>Construction and showing of a standalone window\<close>











section \<open>Embedded windows and occlusion\<close>

lemma quiet_step_refl [simp]: "quiet_step s s"
  by (simp add: quiet_step_def)

lemma quiet_step_trans: "quiet_step s s1 \<Longrightarrow> quiet_step s1 s2 \<Longrightarrow> quiet_step s s2"
  by (simp add: quiet_step_def)

lemma quiet_step_diag [simp]: "quiet_step s (s'\<lparr>diag := d\<rparr>) = quiet_step s s'"
  by (simp add: quiet_step_def back_references_def embedding_and_visibility_def fun_eq_iff)

lemma quiet_step_record_call [simp]: "quiet_step s (record_call c s') = quiet_step s s'"
  by (simp add: quiet_step_def record_call_def back_references_def
        embedding_and_visibility_def fun_eq_iff)

lemma quiet_step_unregister [simp]: "quiet_step s (unregister_window p s') = quiet_step s s'"
  by (simp add: quiet_step_def unregister_window_def back_references_def
        embedding_and_visibility_def fun_eq_iff)

lemma modify_view_quiet:
  assumes "modify_view v f s = Some s'" and "\<And>x. visage_window (f x) = visage_window x"
  shows "quiet_step s s'"
  using assms
  by (auto simp: modify_view_def quiet_step_def back_references_def
        embedding_and_visibility_def fun_eq_iff split: option.splits)

lemma modify_ns_window_quiet:
  assumes "modify_ns_window p f s = Some s'"
  shows "quiet_step s s'"
  using assms
  by (auto simp: modify_ns_window_def quiet_step_def back_references_def
        embedding_and_visibility_def fun_eq_iff split: option.splits)

lemma modify_window_quiet:
  assumes "modify_window p f s = Some s'"
    and "\<And>w. parent_view (f w) = parent_view w" and "\<And>w. visible (f w) = visible w"
  shows "quiet_step s s'"
  using assms
  by (auto simp: modify_window_def quiet_step_def back_references_def
        embedding_and_visibility_def fun_eq_iff split: option.splits)

lemma quiet_resultD: "quiet_result s (f s) \<Longrightarrow> f s = Some s' \<Longrightarrow> quiet_step s s'"
  by (simp add: quiet_result_def)

lemma quiet_result_simps [simp]:
  "quiet_result s None" "quiet_result s (Some s') = quiet_step s s'"
  by (simp_all add: quiet_result_def)

lemmas quiet_unfold = quiet_step_def back_references_def embedding_and_visibility_def fun_eq_iff

lemma updateMetalLayerDrawableSize_quiet':
  "quiet_result s (updateMetalLayerDrawableSize v s)"
  by (simp add: updateMetalLayerDrawableSize_def modify_view_def quiet_unfold
        split: Option.bind_split option.split)

lemma VisageAppView_drawWindow_quiet':
  "quiet_result s (VisageAppView_drawWindow v s)"
  by (simp add: VisageAppView_drawWindow_def record_call_def quiet_unfold
        split: Option.bind_split option.split prod.split)

lemma hide_quiet': "quiet_result s (hide p s)"
  by (simp add: hide_def modify_ns_window_def record_call_def quiet_unfold
        split: Option.bind_split option.split)

lemma resetBackingScale_quiet': "quiet_result s (resetBackingScale p s)"
  by (simp add: resetBackingScale_def setDpiScale_def modify_window_def quiet_unfold
        split: Option.bind_split option.split)

lemma setFrameSize_quiet': "quiet_result s (setFrameSize v k s)"
  by (simp add: setFrameSize_def updateMetalLayerDrawableSize_def modify_view_def quiet_unfold
        split: Option.bind_split option.split)

lemma viewDidChangeBackingProperties_quiet':
  "quiet_result s (viewDidChangeBackingProperties v s)"
  by (simp add: viewDidChangeBackingProperties_def updateMetalLayerDrawableSize_def
        resetBackingScale_def setDpiScale_def modify_window_def modify_view_def quiet_unfold
        split: Option.bind_split option.split)

lemma displayLayer_quiet': "quiet_result s (displayLayer v s)"
  by (simp add: displayLayer_def VisageAppView_drawWindow_def record_call_def
        modify_view_def quiet_unfold
        split: Option.bind_split option.split prod.split)

lemma quiet_step_app_stops [simp]: "quiet_step s (s'\<lparr>app_stops := k\<rparr>) = quiet_step s s'"
  by (simp add: quiet_unfold)

lemma closeWindow_quiet': "quiet_result s (closeWindow p s)"
proof (cases "closeWindow p s")
  case None
  then show ?thesis by simp
next
  case (Some s')
  then obtain w rect s1 s2 s3 where
    s1: "modify_window p (\<lambda>w. w\<lparr>last_content_rect := rect\<rparr>) s = Some s1"
    and s2: "hide p (unregister_window p s1) = Some s2"
    and s3: "modify_window p (\<lambda>w. w\<lparr>window_handle := None\<rparr>) s2 = Some s3"
    and s': "s' = s3 \<or> s' = s3\<lparr>app_stops := Suc (app_stops s3)\<rparr>"
    by (auto simp: closeWindow_def bind_eq_Some_conv split: if_splits)
  have "quiet_step s s1" using s1 by (rule modify_window_quiet) simp_all
  moreover have "quiet_step s1 s2"
    using quiet_resultD [of "unregister_window p s1" "hide p", OF hide_quiet' s2]
    by (simp add: quiet_unfold unregister_window_def)
  moreover have "quiet_step s2 s3" using s3 by (rule modify_window_quiet) simp_all
  ultimately have "quiet_step s s3" by (blast intro: quiet_step_trans)
  with s' Some show ?thesis by auto
qed

lemma setParentWindow_quiet': "quiet_result s (setParentWindow p nw s)"
  by (simp add: setParentWindow_def resetBackingScale_def setDpiScale_def
        modify_ns_window_def modify_window_def quiet_unfold
        split: Option.bind_split option.split)

lemma quiet_stepD:
  assumes "quiet_step s s'"
  shows "back_references s' = back_references s" and "observers s' = observers s"
    and "windows s p = Some w \<Longrightarrow>
           \<exists>w'. windows s' p = Some w' \<and> parent_view w' = parent_view w
             \<and> visible w' = visible w"
proof -
  show "back_references s' = back_references s" "observers s' = observers s"
    using assms by (simp_all add: quiet_step_def)
  assume w: "windows s p = Some w"
  from assms have "embedding_and_visibility s' p = embedding_and_visibility s p"
    by (simp add: quiet_step_def)
  with w show "\<exists>w'. windows s' p = Some w' \<and> parent_view w' = parent_view w
                 \<and> visible w' = visible w"
    by (auto simp: embedding_and_visibility_def)
qed

lemma quiet_step_observers_of:
  "quiet_step s s' \<Longrightarrow> occlusion_observers_of s' this = occlusion_observers_of s this"
  by (simp add: occlusion_observers_of_def quiet_step_def)

lemma windowOcclusionChanged_other:
  assumes "windowOcclusionChanged observer window s = Some s'"
    and "back_references s observer \<noteq> Some (Some this)"
  shows "back_references s' = back_references s \<and> observers s' = observers s
           \<and> windows s' this = windows s this"
proof -
  from assms(1) obtain x n where x: "views s observer = Some x"
    and n: "ns_windows s window = Some n"
    by (auto simp: windowOcclusionChanged_def bind_eq_Some_conv)
  show ?thesis
  proof (cases "visage_window x")
    case None
    with assms(1) x n show ?thesis
      by (auto simp: windowOcclusionChanged_def back_references_def fun_eq_iff)
  next
    case (Some wp)
    with assms(2) x have "wp \<noteq> this" by (simp add: back_references_def)
    with assms(1) x n Some show ?thesis
      by (auto simp: windowOcclusionChanged_def setVisible_def modify_window_def
            back_references_def fun_eq_iff bind_eq_Some_conv split: option.splits)
  qed
qed

lemma deliver_occlusion_other:
  assumes "deliver_occlusion obs window s = Some s'"
    and "\<forall>x \<in> set obs. back_references s (fst x) \<noteq> Some (Some this)"
  shows "back_references s' = back_references s \<and> observers s' = observers s
           \<and> windows s' this = windows s this"
  using assms
proof (induction obs arbitrary: s)
  case Nil
  then show ?case by simp
next
  case (Cons e obs)
  obtain observer object where e: "e = (observer, object)" by (cases e)
  show ?case
  proof (cases "object = window")
    case False
    with Cons e show ?thesis by simp
  next
    case True
    with Cons.prems(1) e obtain s1 where
      s1: "windowOcclusionChanged observer window s = Some s1"
      and rest: "deliver_occlusion obs window s1 = Some s'"
      by (auto simp: bind_eq_Some_conv)
    from Cons.prems(2) e have "back_references s observer \<noteq> Some (Some this)" by simp
    from windowOcclusionChanged_other [OF s1 this]
    have keep: "back_references s1 = back_references s" "observers s1 = observers s"
      "windows s1 this = windows s this"
      by simp_all
    have "\<forall>x \<in> set obs. back_references s1 (fst x) \<noteq> Some (Some this)"
      using Cons.prems(2) keep(1) by simp
    from Cons.IH [OF rest this] keep show ?thesis by simp
  qed
qed

lemma viewWillMoveToWindow_embedded:
  assumes w: "windows s this = Some w" and emb: "parent_view w \<noteq> None"
    and step: "viewWillMoveToWindow v nwo s = Some s'"
  shows "back_references s' = back_references s
       \<and> (\<exists>w'. windows s' this = Some w' \<and> parent_view w' = parent_view w
              \<and> (visible w \<longrightarrow> visible w')
              \<and> (nwo \<noteq> None \<and> back_references s v = Some (Some this) \<longrightarrow> visible w'))
       \<and> (observers s' = observers s
            \<or> (\<exists>nw. observers s' = observers s @ [(v, nw)]
                  \<and> back_references s v \<noteq> Some (Some this)))"
proof -
  from step obtain x where x: "views s v = Some x"
    by (auto simp: viewWillMoveToWindow_def bind_eq_Some_conv)
  have br: "back_references s v = Some (visage_window x)"
    using x by (simp add: back_references_def)
  show ?thesis
  proof (cases nwo)
    case None
    have "quiet_step s s'"
    proof (cases "visage_window x")
      case None
      with step x \<open>nwo = None\<close> show ?thesis by (simp add: viewWillMoveToWindow_def)
    next
      case (Some wp)
      with step x \<open>nwo = None\<close> have "closeWindow wp s = Some s'"
        by (simp add: viewWillMoveToWindow_def)
      with closeWindow_quiet' [of s wp] show ?thesis by simp
    qed
    from quiet_stepD [OF this] w None show ?thesis by auto
  next
    case (Some nw)
    from step x Some obtain s1 s2 embedded s3 where
      s1: "modify_ns_window nw
             (\<lambda>n. n\<lparr>acceptsMouseMovedEvents := True, ignoresMouseEvents := False,
                    firstResponder := Some v\<rparr>) s = Some s1"
      and s2: "(case visage_window x of Some wp \<Rightarrow> setParentWindow wp nw s1
                | None \<Rightarrow> Some s1) = Some s2"
      and e: "(case visage_window x of Some wp \<Rightarrow> map_option isEmbedded (windows s2 wp)
               | None \<Rightarrow> Some False) = Some embedded"
      and s3: "(if \<not> embedded then Some (s2\<lparr>observers := observers s2 @ [(v, nw)]\<rparr>)
                else (case visage_window x of Some wp \<Rightarrow> setVisible wp True s2
                      | None \<Rightarrow> Some s2)) = Some s3"
      and s': "s' = s3\<lparr>diag := visageDebugLog ''window''
                               ''attached window=%p embedded=%d'' (diag s3)\<rparr>"
      by (auto simp: viewWillMoveToWindow_def bind_eq_Some_conv)
    have "quiet_step s s1" using s1 by (rule modify_ns_window_quiet)
    moreover have "quiet_step s1 s2"
    proof (cases "visage_window x")
      case None
      with s2 show ?thesis by simp
    next
      case (Some wp)
      with s2 setParentWindow_quiet' [of s1 wp nw] show ?thesis by simp
    qed
    ultimately have q2: "quiet_step s s2" by (rule quiet_step_trans)
    from quiet_stepD [OF q2] w obtain w2 where
      br2: "back_references s2 = back_references s" and ob2: "observers s2 = observers s"
      and w2: "windows s2 this = Some w2" "parent_view w2 = parent_view w"
        "visible w2 = visible w"
      by blast
    show ?thesis
    proof (cases embedded)
      case False
      with s3 s' have s'_eq: "s' = s2\<lparr>observers := observers s2 @ [(v, nw)],
            diag := visageDebugLog ''window'' ''attached window=%p embedded=%d'' (diag s2)\<rparr>"
        by auto
      have "visage_window x \<noteq> Some this"
      proof
        assume "visage_window x = Some this"
        with e w2 emb False show False by (simp add: isEmbedded_def)
      qed
      with br have "back_references s v \<noteq> Some (Some this)" by simp
      with s'_eq br2 ob2 w2 show ?thesis
        by (auto simp: back_references_def fun_eq_iff)
    next
      case True
      with e obtain wp where wp: "visage_window x = Some wp"
        by (cases "visage_window x") auto
      with s3 True have sv: "setVisible wp True s2 = Some s3" by simp
      then obtain u where u: "windows s2 wp = Some u"
        and s3_eq: "s3 = s2\<lparr>windows := (windows s2)(wp \<mapsto> u\<lparr>visible := True\<rparr>)\<rparr>"
        by (auto simp: setVisible_def modify_window_def split: option.splits)
      have "back_references s' = back_references s"
        using s' s3_eq br2 by (simp add: back_references_def fun_eq_iff)
      moreover have "observers s' = observers s"
        using s' s3_eq ob2 by simp
      moreover have "\<exists>w'. windows s' this = Some w' \<and> parent_view w' = parent_view w
              \<and> (visible w \<longrightarrow> visible w')
              \<and> (nwo \<noteq> None \<and> back_references s v = Some (Some this) \<longrightarrow> visible w')"
      proof (cases "wp = this")
        case True
        with u w2 s' s3_eq show ?thesis by simp
      next
        case False
        with br wp have "back_references s v \<noteq> Some (Some this)" by simp
        with False w2 s' s3_eq show ?thesis by simp
      qed
      ultimately show ?thesis by blast
    qed
  qed
qed

lemma quiet_step_embedded:
  assumes "quiet_step s s'" and "windows s this = Some w"
    and "occlusion_observers_of s this = []"
  shows "back_references s' = back_references s \<and> occlusion_observers_of s' this = []
       \<and> (\<exists>w'. windows s' this = Some w' \<and> parent_view w' = parent_view w
              \<and> (visible w \<longrightarrow> visible w'))"
  using quiet_stepD [OF assms(1)] quiet_step_observers_of [OF assms(1), of this] assms(2,3)
  by auto

lemma deliver_event_embedded:
  assumes w: "windows s this = Some w" and emb: "parent_view w \<noteq> None"
    and none: "occlusion_observers_of s this = []"
    and step: "deliver_event e s = Some s'"
  shows "back_references s' = back_references s \<and> occlusion_observers_of s' this = []
       \<and> (\<exists>w'. windows s' this = Some w' \<and> parent_view w' = parent_view w
              \<and> (visible w \<longrightarrow> visible w')
              \<and> ((\<exists>v nw. e = MoveToWindow v (Some nw)
                     \<and> back_references s v = Some (Some this)) \<longrightarrow> visible w'))"
proof (cases e)
  case (MoveToWindow v nwo)
  with step obtain s1 where s1: "viewWillMoveToWindow v nwo s = Some s1"
    and s': "modify_view v (\<lambda>x. x\<lparr>view_window := nwo\<rparr>) s1 = Some s'"
    by (auto simp: bind_eq_Some_conv)
  from viewWillMoveToWindow_embedded [OF w emb s1] obtain w1 where
    br1: "back_references s1 = back_references s"
    and w1: "windows s1 this = Some w1" "parent_view w1 = parent_view w"
      "visible w \<longrightarrow> visible w1"
      "nwo \<noteq> None \<and> back_references s v = Some (Some this) \<longrightarrow> visible w1"
    and ob1: "observers s1 = observers s
            \<or> (\<exists>nw. observers s1 = observers s @ [(v, nw)]
                  \<and> back_references s v \<noteq> Some (Some this))"
    by blast
  have none1: "occlusion_observers_of s1 this = []"
    using ob1 none br1 by (auto simp: occlusion_observers_of_def)
  have "quiet_step s1 s'" using s' by (rule modify_view_quiet) simp
  from quiet_step_embedded [OF this w1(1) none1] obtain w' where
    "back_references s' = back_references s1" "occlusion_observers_of s' this = []"
    "windows s' this = Some w'" "parent_view w' = parent_view w1"
    "visible w1 \<longrightarrow> visible w'"
    by blast
  with br1 w1 MoveToWindow show ?thesis by auto
next
  case (OcclusionStateChanged window b)
  with step obtain s1 where
    s1: "modify_ns_window window (\<lambda>n. n\<lparr>occlusionVisible := b\<rparr>) s = Some s1"
    and s': "deliver_occlusion (observers s1) window s1 = Some s'"
    by (auto simp: occlusion_state_changed_def bind_eq_Some_conv)
  have q1: "quiet_step s s1" using s1 by (rule modify_ns_window_quiet)
  from quiet_step_embedded [OF q1 w none] obtain w1 where
    br1: "back_references s1 = back_references s"
    and none1: "occlusion_observers_of s1 this = []"
    and w1: "windows s1 this = Some w1" "parent_view w1 = parent_view w"
      "visible w \<longrightarrow> visible w1"
    by blast
  from none1 have "\<forall>x \<in> set (observers s1). back_references s1 (fst x) \<noteq> Some (Some this)"
    by (auto simp: occlusion_observers_of_def filter_empty_conv)
  from deliver_occlusion_other [OF s' this]
  have keep: "back_references s' = back_references s1" "observers s' = observers s1"
    "windows s' this = windows s1 this"
    by simp_all
  then have "occlusion_observers_of s' this = occlusion_observers_of s1 this"
    by (simp add: occlusion_observers_of_def)
  with keep br1 none1 w1 OcclusionStateChanged show ?thesis by simp
next
  case (BackingScaleChanged v k)
  with step obtain x s1 where x: "views s v = Some x"
    and s1: "(case view_window x of
               Some nw \<Rightarrow> modify_ns_window nw (\<lambda>n. n\<lparr>backingScaleFactor := k\<rparr>) s
             | None \<Rightarrow> Some s) = Some s1"
    and s': "viewDidChangeBackingProperties v s1 = Some s'"
    by (auto simp: bind_eq_Some_conv)
  have "quiet_step s s1"
  proof (cases "view_window x")
    case None
    with s1 show ?thesis by simp
  next
    case (Some nw)
    with s1 show ?thesis by (auto intro: modify_ns_window_quiet)
  qed
  moreover have "quiet_step s1 s'"
    using viewDidChangeBackingProperties_quiet' [of s1 v] s' by simp
  ultimately have "quiet_step s s'" by (rule quiet_step_trans)
  from quiet_step_embedded [OF this w none] BackingScaleChanged show ?thesis by auto
next
  case (DisplayLayer v)
  with step displayLayer_quiet' [of s v] have "quiet_step s s'" by simp
  from quiet_step_embedded [OF this w none] DisplayLayer show ?thesis by auto
next
  case (FrameSizeChanged v k)
  with step setFrameSize_quiet' [of s v k] have "quiet_step s s'" by simp
  from quiet_step_embedded [OF this w none] FrameSizeChanged show ?thesis by auto
qed

lemma deliver_events_embedded:
  assumes "windows s this = Some w" and "parent_view w \<noteq> None"
    and "occlusion_observers_of s this = []"
    and "deliver_events es s = Some s'"
  shows "back_references s' = back_references s \<and> occlusion_observers_of s' this = []
       \<and> (\<exists>w'. windows s' this = Some w' \<and> parent_view w' = parent_view w
              \<and> (visible w \<longrightarrow> visible w')
              \<and> ((\<exists>v nw. MoveToWindow v (Some nw) \<in> set es
                     \<and> back_references s v = Some (Some this)) \<longrightarrow> visible w'))"
  using assms
proof (induction es arbitrary: s w)
  case Nil
  then show ?case by simp
next
  case (Cons e es)
  from Cons.prems(4) obtain s1 where s1: "deliver_event e s = Some s1"
    and rest: "deliver_events es s1 = Some s'"
    by (auto simp: bind_eq_Some_conv)
  from deliver_event_embedded [OF Cons.prems(1,2,3) s1] obtain w1 where
    br1: "back_references s1 = back_references s"
    and none1: "occlusion_observers_of s1 this = []"
    and w1: "windows s1 this = Some w1" "parent_view w1 = parent_view w"
      "visible w \<longrightarrow> visible w1"
      "(\<exists>v nw. e = MoveToWindow v (Some nw) \<and> back_references s v = Some (Some this))
         \<longrightarrow> visible w1"
    by blast
  from w1(2) Cons.prems(2) have emb1: "parent_view w1 \<noteq> None" by simp
  from Cons.IH [OF w1(1) emb1 none1 rest] obtain w' where
    "back_references s' = back_references s1" "occlusion_observers_of s' this = []"
    "windows s' this = Some w'" "parent_view w' = parent_view w1"
    "visible w1 \<longrightarrow> visible w'"
    "(\<exists>v nw. MoveToWindow v (Some nw) \<in> set es
        \<and> back_references s1 v = Some (Some this)) \<longrightarrow> visible w'"
    by blast
  with br1 w1 show ?case by auto
qed

lemma WindowMac_embedded_result:
  assumes "host_views s parent = Some hw"
    and "\<forall>nw. hw = Some nw \<longrightarrow> ns_windows s nw \<noteq> None"
    and "scale \<noteq> 0"
  shows "\<exists>s1 u x.
      WindowMac_embedded base width height scale (Some parent) s = Some (next_address s, s1)
      \<and> windows s1 (next_address s) = Some u \<and> parent_view u = Some parent
      \<and> view u = Some (Suc (next_address s)) \<and> window_handle u = hw
      \<and> visible u = (if hw = None then visible base else True)
      \<and> views s1 (Suc (next_address s)) = Some x
      \<and> visage_window x = Some (next_address s) \<and> view_window x = hw \<and> layer x \<noteq> None
      \<and> (\<forall>q. q \<noteq> Suc (next_address s) \<longrightarrow> views s1 q = views s q)
      \<and> observers s1 = observers s"
proof (cases hw)
  case None
  with assms(1,3) show ?thesis
    by (simp add: WindowMac_embedded_def allocate_def initWithFrame_def makeBackingLayer_def
          updateMetalLayerDrawableSize_def modify_view_def modify_window_def addSubview_def
          register_window_def Let_def)
next
  case (Some nw)
  with assms(2) obtain n where "ns_windows s nw = Some n" by auto
  with assms(1,3) Some show ?thesis
    by (simp add: WindowMac_embedded_def allocate_def initWithFrame_def makeBackingLayer_def
          updateMetalLayerDrawableSize_def modify_view_def modify_window_def addSubview_def
          viewWillMoveToWindow_def modify_ns_window_def setParentWindow_def
          resetBackingScale_def setDpiScale_def setVisible_def isEmbedded_def
          register_window_def Let_def)
qed

text \<open>
  C7. An embedded window is never subscribed to occlusion notifications, is made visible
  when its view is attached to a host window, and is not hidden by anything the host
  window does. For a window object that is embedded and has no occlusion subscription,
  after any sequence of events from the operating system that the code gets through
  (moves of views between windows, occlusion changes of any window, changes of backing
  scale, redraws, resizes): the window is still embedded, there is still no occlusion
  subscription on its behalf, its visibility has not gone from true to false, and it is
  true if one of the events attached a view of the window to a window. And the
  constructor of an embedded window (given a live host view, a scale other than zero and
  addresses that are new to the notification centre) establishes this: it leaves the
  subscriptions as they are, none of them on behalf of the new window, and the new window
  is visible as soon as the host's view is in a window, whatever the base class had set.
\<close>

theorem embedded_window_never_hidden_by_occlusion:
  assumes "windows s this = Some w" and "isEmbedded w"
    and "occlusion_observers_of s this = []"
    and "deliver_events es s = Some s'"
  shows "(\<exists>w'. windows s' this = Some w' \<and> isEmbedded w'
            \<and> occlusion_observers_of s' this = []
            \<and> (visible w \<longrightarrow> visible w')
            \<and> ((\<exists>v nw. MoveToWindow v (Some nw) \<in> set es
                   \<and> back_references s v = Some (Some this)) \<longrightarrow> visible w'))
       \<and> (host_views s0 parent = Some hw
            \<and> (\<forall>nw. hw = Some nw \<longrightarrow> ns_windows s0 nw \<noteq> None)
            \<and> fresh_for_observers s0 \<and> scale \<noteq> 0
          \<longrightarrow> (\<exists>p s1 u.
                 WindowMac_embedded base width height scale (Some parent) s0 = Some (p, s1)
                 \<and> windows s1 p = Some u \<and> isEmbedded u
                 \<and> observers s1 = observers s0
                 \<and> occlusion_observers_of s1 p = []
                 \<and> (hw \<noteq> None \<longrightarrow> visible u)))"
proof (intro conjI impI)
  from assms(2) have emb: "parent_view w \<noteq> None" by (simp add: isEmbedded_def)
  from deliver_events_embedded [OF assms(1) emb assms(3,4)]
  show "\<exists>w'. windows s' this = Some w' \<and> isEmbedded w'
            \<and> occlusion_observers_of s' this = []
            \<and> (visible w \<longrightarrow> visible w')
            \<and> ((\<exists>v nw. MoveToWindow v (Some nw) \<in> set es
                   \<and> back_references s v = Some (Some this)) \<longrightarrow> visible w')"
    using emb by (auto simp: isEmbedded_def)
next
  assume a: "host_views s0 parent = Some hw
            \<and> (\<forall>nw. hw = Some nw \<longrightarrow> ns_windows s0 nw \<noteq> None)
            \<and> fresh_for_observers s0 \<and> scale \<noteq> 0"
  then have host: "host_views s0 parent = Some hw"
    and live: "\<forall>nw. hw = Some nw \<longrightarrow> ns_windows s0 nw \<noteq> None"
    and fresh: "fresh_for_observers s0"
    and scale: "scale \<noteq> 0"
    by simp_all
  from WindowMac_embedded_result [OF host live scale, of base width height]
  obtain s1 u x where r:
    "WindowMac_embedded base width height scale (Some parent) s0 = Some (next_address s0, s1)"
    "windows s1 (next_address s0) = Some u" "parent_view u = Some parent"
    "visible u = (if hw = None then visible base else True)"
    "\<forall>q. q \<noteq> Suc (next_address s0) \<longrightarrow> views s1 q = views s0 q"
    "observers s1 = observers s0"
    by blast
  have "back_references s1 (fst e) \<noteq> Some (Some (next_address s0))"
    if "e \<in> set (observers s0)" for e
  proof -
    from fresh that have "fst e \<noteq> Suc (next_address s0)"
      and "back_references s0 (fst e) \<noteq> Some (Some (next_address s0))"
      by (auto simp: fresh_for_observers_def list_all_iff)
    with r(5) show ?thesis by (simp add: back_references_def)
  qed
  then have "occlusion_observers_of s1 (next_address s0) = []"
    using r(6) by (auto simp: occlusion_observers_of_def filter_empty_conv)
  with r show "\<exists>p s1 u.
                 WindowMac_embedded base width height scale (Some parent) s0 = Some (p, s1)
                 \<and> windows s1 p = Some u \<and> isEmbedded u
                 \<and> observers s1 = observers s0
                 \<and> occlusion_observers_of s1 p = []
                 \<and> (hw \<noteq> None \<longrightarrow> visible u)"
    by (auto simp: isEmbedded_def)
qed

theorem embedded_window_never_hidden_by_occlusion_witness:
  "WindowMac_embedded hidden_base 1600 1200 2 (Some 50) host_world = Some (100, embedded_world)
   \<and> windows embedded_world 100 = Some embedded_window
   \<and> isEmbedded embedded_window
   \<and> occlusion_observers_of embedded_world 100 = []
   \<and> (\<exists>s'. deliver_events host_events embedded_world = Some s'
          \<and> occlusion_observers_of s' 100 = []
          \<and> visibility_of (Some s') 100 = Some True)
   \<and> (\<exists>p s1 u. WindowMac_embedded hidden_base 1600 1200 2 (Some 50) host_world = Some (p, s1)
          \<and> windows s1 p = Some u \<and> observers s1 = [] \<and> visible u)
   \<and> visibility_of (deliver_event (OcclusionStateChanged 3 False) standalone_world) 1
       = Some False"
proof -
  have ctor: "WindowMac_embedded hidden_base 1600 1200 2 (Some 50) host_world
                = Some (100, embedded_world)"
    by (simp add: WindowMac_embedded_def allocate_def initWithFrame_def makeBackingLayer_def
          updateMetalLayerDrawableSize_def modify_view_def modify_window_def addSubview_def
          viewWillMoveToWindow_def modify_ns_window_def setParentWindow_def
          resetBackingScale_def setDpiScale_def setVisible_def isEmbedded_def
          register_window_def addWindow_def WindowMac_nativeHandle_def bounds_size_def
          NSMakeRect_def NSZeroRect_def hidden_base_def host_world_def empty_world_def
          embedded_world_def embedded_window_def embedded_view_def host_ns_window_def
          quiet_def visageDebugLog_def log_every_def Let_def)
  have fixture: "windows embedded_world 100 = Some embedded_window"
    "isEmbedded embedded_window" "occlusion_observers_of embedded_world 100 = []"
    by (simp_all add: embedded_world_def embedded_window_def isEmbedded_def
          occlusion_observers_of_def host_world_def empty_world_def)
  have host: "host_views host_world 50 = Some (Some 60)
            \<and> (\<forall>nw. Some 60 = Some nw \<longrightarrow> ns_windows host_world nw \<noteq> None)
            \<and> fresh_for_observers host_world \<and> (2::real) \<noteq> 0"
    by (simp add: host_world_def empty_world_def fresh_for_observers_def)
  have run: "visibility_of (deliver_events host_events embedded_world) 100 = Some True"
    by (simp add: host_events_def embedded_world_def host_world_def empty_world_def
          embedded_window_def embedded_view_def host_ns_window_def quiet_def
          visibility_of_def occlusion_state_changed_def modify_ns_window_def
          viewWillMoveToWindow_def setParentWindow_def resetBackingScale_def
          setDpiScale_def setVisible_def modify_window_def modify_view_def isEmbedded_def
          displayLayer_def VisageAppView_drawWindow_def microseconds_def record_call_def
          visageDebugLog_def Let_def)
  then obtain s' where s': "deliver_events host_events embedded_world = Some s'"
    by (cases "deliver_events host_events embedded_world") (simp_all add: visibility_of_def)
  note inst = embedded_window_never_hidden_by_occlusion
               [OF fixture s', where ?s0.0 = host_world and parent = 50 and hw = "Some 60"
                  and scale = 2 and base = hidden_base and width = 1600 and height = 1200]
  from inst have kept: "occlusion_observers_of s' 100 = []" by blast
  from inst host have built:
    "\<exists>p s1 u. WindowMac_embedded hidden_base 1600 1200 2 (Some 50) host_world = Some (p, s1)
       \<and> windows s1 p = Some u \<and> observers s1 = [] \<and> visible u"
    by (auto simp: host_world_def empty_world_def)
  have standalone:
    "visibility_of (deliver_event (OcclusionStateChanged 3 False) standalone_world) 1
       = Some False"
    by (simp add: standalone_world_def standalone_window_def standalone_view_def
          standalone_ns_window_def quiet_def visibility_of_def occlusion_state_changed_def
          modify_ns_window_def windowOcclusionChanged_def setVisible_def modify_window_def
          visageDebugLog_def)
  from ctor fixture s' kept run built standalone show ?thesis by simp
qed

end
